theory Spec2Isabelle
  imports Main "HOL-Library.Word" "HOL-Library.AList" "HOL-Library.Sublist"
begin

section \<open>Header maps, the store of map objects and the log\<close>

text \<open>
  A Go \<^verbatim>\<open>[]byte\<close> is a list of 8-bit words. An \<^verbatim>\<open>http.Header\<close> is a
  \<^verbatim>\<open>map[string][]string\<close>; it is kept as an association list whose keys are
  pairwise distinct, so that the \<^verbatim>\<open>range\<close> loop of \<^verbatim>\<open>CopyHeaders\<close> has
  entries to walk through (in whatever order the list holds them).
\<close>

type_synonym byte = "8 word"

type_synonym Header = "(string \<times> string list) list"

text \<open>\<^verbatim>\<open>h[k]\<close> read from a Go map: the stored slice, or the nil slice for a missing key.\<close>

definition Header_index :: "Header \<Rightarrow> string \<Rightarrow> string list" where
  "Header_index h k = (case map_of h k of None \<Rightarrow> [] | Some vs \<Rightarrow> vs)"

text \<open>
  \<^verbatim>\<open>Header.Get\<close> of net/http: the first value stored under the key, the empty
  string when there is none. The keys this program asks for (Upgrade, Content-Encoding,
  Content-Type, Set-Cookie) are already in canonical form.
\<close>

definition Header_Get :: "Header \<Rightarrow> string \<Rightarrow> string" where
  "Header_Get h k = (case Header_index h k of [] \<Rightarrow> [] | v # _ \<Rightarrow> v)"

text \<open>
  Lines handed to the \<^verbatim>\<open>log\<close> package, one constructor for each call site.
\<close>

datatype log_entry =
    LogBeforeCatcher
  | LogCatcher
  | LogAfterServe
  | LogStatus int
  | LogUnableToWrite string
  | LogErrorHeaders Header

text \<open>
  Go maps are reference values: two holders of the same map see each other's writes.
  The world keeps every map object under a reference, hands out fresh references, and
  collects the log.
\<close>

record world =
  maps :: "nat \<Rightarrow> Header option"
  nextRef :: nat
  logged :: "log_entry list"

definition deref :: "world \<Rightarrow> nat \<Rightarrow> Header" where
  "deref w r = (case maps w r of None \<Rightarrow> [] | Some h \<Rightarrow> h)"

definition assign :: "nat \<Rightarrow> Header \<Rightarrow> world \<Rightarrow> world" where
  "assign r h w = w\<lparr>maps := (maps w)(r := Some h)\<rparr>"

text \<open>\<^verbatim>\<open>make(http.Header)\<close>: a new, empty map under a reference nobody else holds.\<close>

definition make_Header :: "world \<Rightarrow> nat \<times> world" where
  "make_Header w = (nextRef w, w\<lparr>maps := (maps w)(nextRef w := Some []), nextRef := Suc (nextRef w)\<rparr>)"

definition log_Print :: "log_entry \<Rightarrow> world \<Rightarrow> world" where
  "log_Print e w = w\<lparr>logged := logged w @ [e]\<rparr>"

section \<open>CopyHeaders\<close>

text \<open>
  The loop body, \<^verbatim>\<open>dst[k] = append(dst[k], vv...)\<close>, for one entry \<open>(k, vv)\<close>
  of the source: first on a map value, then on the map found under the reference \<open>dst\<close>.
\<close>

definition append_entry :: "string \<times> string list \<Rightarrow> Header \<Rightarrow> Header" where
  "append_entry e h = AList.update (fst e) (Header_index h (fst e) @ snd e) h"

definition CopyHeaders_step :: "nat \<Rightarrow> string \<times> string list \<Rightarrow> world \<Rightarrow> world" where
  "CopyHeaders_step dst e w = assign dst (append_entry e (deref w dst)) w"

text \<open>\<^verbatim>\<open>for k, vv := range src\<close>: the entries of the source map, one round each.\<close>

definition CopyHeaders :: "nat \<Rightarrow> nat \<Rightarrow> world \<Rightarrow> world" where
  "CopyHeaders dst src w = fold (CopyHeaders_step dst) (deref w src) w"

section \<open>The real sink\<close>

text \<open>
  \<^verbatim>\<open>http.ResponseWriter\<close> is an interface of net/http; the sink behind it is kept
  as a recorder: the reference of the map its \<^verbatim>\<open>Header()\<close> returns, the calls it has
  received so far (oldest first), the answer its \<^verbatim>\<open>Write\<close> gives, which of the
  optional interfaces it also implements, and the name of its concrete type. Its
  \<^verbatim>\<open>Header()\<close> never returns the nil map, as net/http promises; assigning into a nil
  map would panic.
\<close>

datatype sink_call =
    SinkWriteHeader int
  | SinkWrite "byte list"
  | SinkFlush
  | SinkHijack

record ResponseWriter =
  rwHeader :: nat
  rwCalls :: "sink_call list"
  rwWriteResult :: "byte list \<Rightarrow> int \<times> string option"
  rwFlusher :: bool
  rwHijacker :: bool
  rwCloseNotifier :: bool
  rwType :: string

definition rw_WriteHeader :: "int \<Rightarrow> ResponseWriter \<Rightarrow> ResponseWriter" where
  "rw_WriteHeader c rw = rw\<lparr>rwCalls := rwCalls rw @ [SinkWriteHeader c]\<rparr>"

definition rw_Write :: "byte list \<Rightarrow> ResponseWriter \<Rightarrow> (int \<times> string option) \<times> ResponseWriter" where
  "rw_Write buf rw = (rwWriteResult rw buf, rw\<lparr>rwCalls := rwCalls rw @ [SinkWrite buf]\<rparr>)"

definition rw_Flush :: "ResponseWriter \<Rightarrow> ResponseWriter" where
  "rw_Flush rw = rw\<lparr>rwCalls := rwCalls rw @ [SinkFlush]\<rparr>"

definition rw_Hijack :: "ResponseWriter \<Rightarrow> ResponseWriter" where
  "rw_Hijack rw = rw\<lparr>rwCalls := rwCalls rw @ [SinkHijack]\<rparr>"

text \<open>The bytes the sink has received through \<^verbatim>\<open>Write\<close>, in order.\<close>

fun sink_bytes :: "sink_call list \<Rightarrow> byte list" where
  "sink_bytes [] = []"
| "sink_bytes (SinkWrite buf # cs) = buf @ sink_bytes cs"
| "sink_bytes (_ # cs) = sink_bytes cs"

text \<open>The status codes the sink has received through \<^verbatim>\<open>WriteHeader\<close>, in order.\<close>

fun sink_statuses :: "sink_call list \<Rightarrow> int list" where
  "sink_statuses [] = []"
| "sink_statuses (SinkWriteHeader c # cs) = c # sink_statuses cs"
| "sink_statuses (_ # cs) = sink_statuses cs"

section \<open>The status ranges\<close>

text \<open>
  Modelled from the spec: the type \<^verbatim>\<open>types.HTTPCodeRanges\<close> is declared outside the
  files at hand; the loop reads \<^verbatim>\<open>block[0]\<close> and \<^verbatim>\<open>block[1]\<close> of each element, so
  a collection of ranges is a list of pairs (low, high).
\<close>

type_synonym HTTPCodeRanges = "(int \<times> int) list"

text \<open>
  The loop of \<^verbatim>\<open>WriteHeader\<close>: it leaves at the first block that holds the code;
  the result says whether it left that way.
\<close>

fun inCodeRanges :: "int \<Rightarrow> HTTPCodeRanges \<Rightarrow> bool" where
  "inCodeRanges c [] = False"
| "inCodeRanges c (block # blocks) =
     (if c \<ge> fst block \<and> c \<le> snd block then True else inCodeRanges c blocks)"

section \<open>The internal interceptor: codeCatcher of pretty\_error.go\<close>

record codeCatcher =
  headerMap :: "nat option"
  code :: int
  httpCodeRanges :: HTTPCodeRanges
  caughtFilteredCode :: bool
  responseWriter :: ResponseWriter
  headersSent :: bool

datatype responseInterceptor =
    PlainCatcher codeCatcher
  | CatcherWithCloseNotify codeCatcher

fun embedded :: "responseInterceptor \<Rightarrow> codeCatcher" where
  "embedded (PlainCatcher cc) = cc"
| "embedded (CatcherWithCloseNotify cc) = cc"

definition StatusOK :: int where
  "StatusOK = 200"

definition newCodeCatcher ::
  "ResponseWriter \<Rightarrow> HTTPCodeRanges \<Rightarrow> world \<Rightarrow> responseInterceptor \<times> world" where
  "newCodeCatcher rw ranges w =
     (let (r, w1) = make_Header w;
          catcher = \<lparr>headerMap = Some r, code = StatusOK, httpCodeRanges = ranges,
                     caughtFilteredCode = False, responseWriter = rw, headersSent = False\<rparr>
      in if rwCloseNotifier rw then (CatcherWithCloseNotify catcher, w1)
         else (PlainCatcher catcher, w1))"

definition cc_Header :: "codeCatcher \<times> world \<Rightarrow> nat \<times> codeCatcher \<times> world" where
  "cc_Header st =
     (case headerMap (fst st) of
        None \<Rightarrow> (let (r, w1) = make_Header (snd st) in (r, (fst st)\<lparr>headerMap := Some r\<rparr>, w1))
      | Some r \<Rightarrow> (r, st))"

definition getCode :: "codeCatcher \<Rightarrow> int" where
  "getCode cc = code cc"

definition isFilteredCode :: "codeCatcher \<Rightarrow> bool" where
  "isFilteredCode cc = caughtFilteredCode cc"

definition cc_WriteHeader :: "int \<Rightarrow> codeCatcher \<times> world \<Rightarrow> codeCatcher \<times> world" where
  "cc_WriteHeader c st =
     (if headersSent (fst st) \<or> caughtFilteredCode (fst st) then st
      else
        let cc1 = (fst st)\<lparr>code := c\<rparr> in
        if inCodeRanges (code cc1) (httpCodeRanges cc1)
        then (cc1\<lparr>caughtFilteredCode := True\<rparr>, snd st)
        else
          let dst = rwHeader (responseWriter cc1);
              (src, cc2, w2) = cc_Header (cc1, snd st);
              w3 = CopyHeaders dst src w2;
              cc3 = cc2\<lparr>responseWriter := rw_WriteHeader (code cc2) (responseWriter cc2)\<rparr>
          in (cc3\<lparr>headersSent := True\<rparr>, w3))"

definition cc_Write ::
  "byte list \<Rightarrow> codeCatcher \<times> world \<Rightarrow> (int \<times> string option) \<times> codeCatcher \<times> world" where
  "cc_Write buf st =
     (let (cc1, w1) = cc_WriteHeader (code (fst st)) st in
      if caughtFilteredCode cc1 then ((int (length buf), None), cc1, w1)
      else
        let (res, rw1) = rw_Write buf (responseWriter cc1)
        in (res, cc1\<lparr>responseWriter := rw1\<rparr>, w1))"

datatype hijack_error = NotAHijacker string

definition cc_Hijack :: "codeCatcher \<times> world \<Rightarrow> hijack_error option \<times> codeCatcher \<times> world" where
  "cc_Hijack st =
     (if rwHijacker (responseWriter (fst st))
      then (None, (fst st)\<lparr>responseWriter := rw_Hijack (responseWriter (fst st))\<rparr>, snd st)
      else (Some (NotAHijacker (rwType (responseWriter (fst st)))), st))"

definition cc_Flush :: "codeCatcher \<times> world \<Rightarrow> codeCatcher \<times> world" where
  "cc_Flush st =
     (let (cc1, w1) = cc_WriteHeader (code (fst st)) st in
      if rwFlusher (responseWriter cc1)
      then (cc1\<lparr>responseWriter := rw_Flush (responseWriter cc1)\<rparr>, w1)
      else (cc1, w1))"

section \<open>The exported interceptor: CodeCatcher of httputil/code\_catcher.go\<close>

text \<open>
  The fields of the exported struct carry the prefix \<open>pub\<close>, to keep them apart from
  those of the internal one; \<open>pub_ResponseWriter\<close> is the embedded interface value.
\<close>

record CodeCatcher =
  pub_buffer :: "byte list"
  pub_lastModified :: bool
  pub_wroteHeader :: bool
  pub_headerMap :: "nat option"
  pub_code :: int
  pub_httpCodeRanges :: HTTPCodeRanges
  pub_caughtFilteredCode :: bool
  pub_headersSent :: bool
  pub_ResponseWriter :: ResponseWriter

datatype ResponseInterceptor =
    PlainCodeCatcher CodeCatcher
  | CodeCatcherWithCloseNotify CodeCatcher

fun pub_embedded :: "ResponseInterceptor \<Rightarrow> CodeCatcher" where
  "pub_embedded (PlainCodeCatcher cc) = cc"
| "pub_embedded (CodeCatcherWithCloseNotify cc) = cc"

text \<open>
  Modelled from the spec: the package \<^verbatim>\<open>compressutil\<close> is not among the files at
  hand. Its two functions are parameters: \<open>Decode\<close> reads the buffer under an encoding
  name and gives bytes and an error, together with what it leaves in the buffer;
  \<open>Encode\<close> gives bytes and an error.
\<close>

record codec =
  Decode :: "byte list \<Rightarrow> string \<Rightarrow> (byte list \<times> string option) \<times> byte list"
  Encode :: "byte list \<Rightarrow> string \<Rightarrow> byte list \<times> string option"

definition NewCodeCatcher ::
  "ResponseWriter \<Rightarrow> HTTPCodeRanges \<Rightarrow> world \<Rightarrow> ResponseInterceptor \<times> world" where
  "NewCodeCatcher rw ranges w =
     (let (r, w1) = make_Header w;
          catcher = \<lparr>pub_buffer = [], pub_lastModified = False, pub_wroteHeader = False,
                     pub_headerMap = Some r, pub_code = StatusOK, pub_httpCodeRanges = ranges,
                     pub_caughtFilteredCode = False, pub_headersSent = False,
                     pub_ResponseWriter = rw\<rparr>
      in if rwCloseNotifier rw then (CodeCatcherWithCloseNotify catcher, w1)
         else (PlainCodeCatcher catcher, w1))"

definition CodeCatcher_getHeader :: "string \<Rightarrow> CodeCatcher \<times> world \<Rightarrow> string" where
  "CodeCatcher_getHeader headerName st =
     Header_Get (deref (snd st) (rwHeader (pub_ResponseWriter (fst st)))) headerName"

definition CodeCatcher_LogHeaders :: "CodeCatcher \<times> world \<Rightarrow> CodeCatcher \<times> world" where
  "CodeCatcher_LogHeaders st =
     (fst st, log_Print (LogErrorHeaders (deref (snd st) (rwHeader (pub_ResponseWriter (fst st))))) (snd st))"

definition getContentEncoding :: "CodeCatcher \<times> world \<Rightarrow> string" where
  "getContentEncoding st = CodeCatcher_getHeader ''Content-Encoding'' st"

definition getContentType :: "CodeCatcher \<times> world \<Rightarrow> string" where
  "getContentType st = CodeCatcher_getHeader ''Content-Type'' st"

definition getSetCookie :: "CodeCatcher \<times> world \<Rightarrow> string" where
  "getSetCookie st = CodeCatcher_getHeader ''Set-Cookie'' st"

definition CodeCatcher_Header :: "CodeCatcher \<times> world \<Rightarrow> nat \<times> CodeCatcher \<times> world" where
  "CodeCatcher_Header st =
     (case pub_headerMap (fst st) of
        None \<Rightarrow> (let (r, w1) = make_Header (snd st) in (r, (fst st)\<lparr>pub_headerMap := Some r\<rparr>, w1))
      | Some r \<Rightarrow> (r, st))"

definition GetCode :: "CodeCatcher \<Rightarrow> int" where
  "GetCode cc = pub_code cc"

definition IsFilteredCode :: "CodeCatcher \<Rightarrow> bool" where
  "IsFilteredCode cc = pub_caughtFilteredCode cc"

definition CodeCatcher_WriteHeader :: "int \<Rightarrow> CodeCatcher \<times> world \<Rightarrow> CodeCatcher \<times> world" where
  "CodeCatcher_WriteHeader c st =
     (if pub_headersSent (fst st) \<or> pub_caughtFilteredCode (fst st) then st
      else
        let cc1 = (fst st)\<lparr>pub_code := c\<rparr> in
        if inCodeRanges (pub_code cc1) (pub_httpCodeRanges cc1)
        then (cc1\<lparr>pub_caughtFilteredCode := True\<rparr>, snd st)
        else
          let dst = rwHeader (pub_ResponseWriter cc1);
              (src, cc2, w2) = CodeCatcher_Header (cc1, snd st);
              w3 = CopyHeaders dst src w2;
              cc3 = cc2\<lparr>pub_ResponseWriter :=
                         rw_WriteHeader (pub_code cc2) (pub_ResponseWriter cc2)\<rparr>
          in (cc3\<lparr>pub_headersSent := True\<rparr>, w3))"

text \<open>
  The exported \<^verbatim>\<open>Write\<close> has no branch on \<^verbatim>\<open>caughtFilteredCode\<close>: in the source
  that branch stands inside a comment, and the call to the embedded writer follows the
  call of \<^verbatim>\<open>WriteHeader\<close> directly.
\<close>

definition CodeCatcher_Write ::
  "byte list \<Rightarrow> CodeCatcher \<times> world \<Rightarrow> (int \<times> string option) \<times> CodeCatcher \<times> world" where
  "CodeCatcher_Write buf st =
     (let (cc1, w1) = CodeCatcher_WriteHeader (pub_code (fst st)) st;
          (res, rw1) = rw_Write buf (pub_ResponseWriter cc1)
      in (res, cc1\<lparr>pub_ResponseWriter := rw1\<rparr>, w1))"

definition CodeCatcher_Hijack ::
  "CodeCatcher \<times> world \<Rightarrow> hijack_error option \<times> CodeCatcher \<times> world" where
  "CodeCatcher_Hijack st =
     (if rwHijacker (pub_ResponseWriter (fst st))
      then (None, (fst st)\<lparr>pub_ResponseWriter := rw_Hijack (pub_ResponseWriter (fst st))\<rparr>, snd st)
      else (Some (NotAHijacker (rwType (pub_ResponseWriter (fst st)))), st))"

definition CodeCatcher_Flush :: "CodeCatcher \<times> world \<Rightarrow> CodeCatcher \<times> world" where
  "CodeCatcher_Flush st =
     (let (cc1, w1) = CodeCatcher_WriteHeader (pub_code (fst st)) st in
      if rwFlusher (pub_ResponseWriter cc1)
      then (cc1\<lparr>pub_ResponseWriter := rw_Flush (pub_ResponseWriter cc1)\<rparr>, w1)
      else (cc1, w1))"

definition GetBuffer :: "CodeCatcher \<Rightarrow> byte list" where
  "GetBuffer cc = pub_buffer cc"

definition GetContent ::
  "codec \<Rightarrow> CodeCatcher \<times> world \<Rightarrow> (byte list \<times> string option) \<times> CodeCatcher \<times> world" where
  "GetContent cd st =
     (let encoding = getContentEncoding st;
          (res, rest) = Decode cd (GetBuffer (fst st)) encoding
      in (res, (fst st)\<lparr>pub_buffer := rest\<rparr>, snd st))"

text \<open>
  \<^verbatim>\<open>SetContent\<close> has no result. The error of \<^verbatim>\<open>Encode\<close> is bound to the blank
  identifier; only the error of the sink's \<^verbatim>\<open>Write\<close> reaches the log.
\<close>

definition SetContent :: "codec \<Rightarrow> byte list \<Rightarrow> CodeCatcher \<times> world \<Rightarrow> CodeCatcher \<times> world" where
  "SetContent cd data st =
     (let encoding = getContentEncoding st;
          bodyBytes = fst (Encode cd data encoding);
          (cc1, w1) = (if \<not> pub_wroteHeader (fst st) then CodeCatcher_WriteHeader StatusOK st else st);
          (res, rw1) = rw_Write bodyBytes (pub_ResponseWriter cc1);
          cc2 = cc1\<lparr>pub_ResponseWriter := rw1\<rparr>
      in case snd res of
           None \<Rightarrow> (cc2, w1)
         | Some err \<Rightarrow> CodeCatcher_LogHeaders (cc2, log_Print (LogUnableToWrite err) w1))"

definition SetLastModified :: "bool \<Rightarrow> CodeCatcher \<Rightarrow> CodeCatcher" where
  "SetLastModified v cc = cc\<lparr>pub_lastModified := v\<rparr>"

section \<open>The support gate and the middleware\<close>

text \<open>\<^verbatim>\<open>strings.Contains\<close>: does \<open>substr\<close> occur in \<open>s\<close> as a contiguous run?\<close>

fun strings_Contains :: "string \<Rightarrow> string \<Rightarrow> bool" where
  "strings_Contains [] substr = (substr = [])"
| "strings_Contains (c # s) substr = (prefix substr (c # s) \<or> strings_Contains s substr)"

record Request =
  Method :: string
  reqHeader :: Header

definition SupportsProcessing :: "Request \<Rightarrow> bool" where
  "SupportsProcessing request =
     (if Method request \<noteq> ''GET'' then False
      else if strings_Contains (Header_Get (reqHeader request) ''Upgrade'') ''websocket'' then False
      else True)"

text \<open>
  The other reading of "the Upgrade header contains websocket": the header as the list of
  all the values the request carries under the name, any of which may hold the text.
  \<^verbatim>\<open>SupportsProcessing\<close> does not use it; it is here to be compared with.
\<close>

fun any_value_contains :: "string list \<Rightarrow> string \<Rightarrow> bool" where
  "any_value_contains [] substr = False"
| "any_value_contains (v # vs) substr = (strings_Contains v substr \<or> any_value_contains vs substr)"

definition Upgrade_contains :: "Request \<Rightarrow> string \<Rightarrow> bool" where
  "Upgrade_contains request substr =
     any_value_contains (Header_index (reqHeader request) ''Upgrade'') substr"

definition SupportsWriting :: "CodeCatcher \<times> world \<Rightarrow> bool" where
  "SupportsWriting st = (\<not> strings_Contains (getSetCookie st) ''XSRF-TOKEN'')"

definition CodeCatcher_SupportsProcessing :: "CodeCatcher \<times> world \<Rightarrow> bool" where
  "CodeCatcher_SupportsProcessing st =
     (let contentType = getContentType st in
      if contentType \<noteq> [] \<and> \<not> strings_Contains contentType ''text'' then False
      else
        let encoding = getContentEncoding st in
        if encoding = ''gzip'' then True
        else if encoding = ''deflate'' then True
        else if encoding = ''identity'' then True
        else if encoding = [] then True
        else False)"

section \<open>Upstream handlers\<close>

text \<open>
  A handler is known by the calls it makes on the writer it is handed: it changes the
  map that \<^verbatim>\<open>Header()\<close> returns, sets the status, writes body bytes, flushes, or
  takes the connection over. A handler that chooses its next call by what the earlier
  ones returned still makes, in any one run, one such sequence of calls; the facts below
  hold for every sequence.
\<close>

datatype op =
    OpHeader "Header \<Rightarrow> Header"
  | OpWriteHeader int
  | OpWrite "byte list"
  | OpFlush
  | OpHijack

text \<open>The calls made on the internal interceptor.\<close>

fun cc_apply :: "op \<Rightarrow> codeCatcher \<times> world \<Rightarrow> codeCatcher \<times> world" where
  "cc_apply (OpHeader f) st =
     (let (r, cc1, w1) = cc_Header st in (cc1, assign r (f (deref w1 r)) w1))"
| "cc_apply (OpWriteHeader c) st = cc_WriteHeader c st"
| "cc_apply (OpWrite buf) st = snd (cc_Write buf st)"
| "cc_apply OpFlush st = cc_Flush st"
| "cc_apply OpHijack st = snd (cc_Hijack st)"

text \<open>The calls that set the status: the explicit one, and the two that imply it.\<close>

fun sets_status :: "op \<Rightarrow> bool" where
  "sets_status (OpWriteHeader c) = True"
| "sets_status (OpWrite buf) = True"
| "sets_status OpFlush = True"
| "sets_status x = False"

definition cc_run :: "op list \<Rightarrow> codeCatcher \<times> world \<Rightarrow> codeCatcher \<times> world" where
  "cc_run ops st = fold cc_apply ops st"

text \<open>The same calls made on the real sink itself.\<close>

fun rw_apply :: "op \<Rightarrow> ResponseWriter \<times> world \<Rightarrow> ResponseWriter \<times> world" where
  "rw_apply (OpHeader f) st =
     (fst st, assign (rwHeader (fst st)) (f (deref (snd st) (rwHeader (fst st)))) (snd st))"
| "rw_apply (OpWriteHeader c) st = (rw_WriteHeader c (fst st), snd st)"
| "rw_apply (OpWrite buf) st = (snd (rw_Write buf (fst st)), snd st)"
| "rw_apply OpFlush st = (if rwFlusher (fst st) then rw_Flush (fst st) else fst st, snd st)"
| "rw_apply OpHijack st = (if rwHijacker (fst st) then rw_Hijack (fst st) else fst st, snd st)"

definition rw_run :: "op list \<Rightarrow> ResponseWriter \<times> world \<Rightarrow> ResponseWriter \<times> world" where
  "rw_run ops st = fold rw_apply ops st"

text \<open>
  The exported interceptor offers more: its content can be read and set, its
  last-modified switch set, and \<^verbatim>\<open>GetBuffer\<close> hands out a pointer to the buffer,
  through which the holder can change it.
\<close>

datatype pub_op =
    PubHeader "Header \<Rightarrow> Header"
  | PubWriteHeader int
  | PubWrite "byte list"
  | PubFlush
  | PubHijack
  | PubGetContent
  | PubSetContent "byte list"
  | PubSetLastModified bool
  | PubBuffer "byte list \<Rightarrow> byte list"

fun CodeCatcher_apply :: "codec \<Rightarrow> pub_op \<Rightarrow> CodeCatcher \<times> world \<Rightarrow> CodeCatcher \<times> world" where
  "CodeCatcher_apply cd (PubHeader f) st =
     (let (r, cc1, w1) = CodeCatcher_Header st in (cc1, assign r (f (deref w1 r)) w1))"
| "CodeCatcher_apply cd (PubWriteHeader c) st = CodeCatcher_WriteHeader c st"
| "CodeCatcher_apply cd (PubWrite buf) st = snd (CodeCatcher_Write buf st)"
| "CodeCatcher_apply cd PubFlush st = CodeCatcher_Flush st"
| "CodeCatcher_apply cd PubHijack st = snd (CodeCatcher_Hijack st)"
| "CodeCatcher_apply cd PubGetContent st = snd (GetContent cd st)"
| "CodeCatcher_apply cd (PubSetContent data) st = SetContent cd data st"
| "CodeCatcher_apply cd (PubSetLastModified v) st = (SetLastModified v (fst st), snd st)"
| "CodeCatcher_apply cd (PubBuffer g) st = ((fst st)\<lparr>pub_buffer := g (GetBuffer (fst st))\<rparr>, snd st)"

text \<open>Its calls that set the status; \<^verbatim>\<open>SetContent\<close> is one, through the call it makes.\<close>

fun pub_sets_status :: "pub_op \<Rightarrow> bool" where
  "pub_sets_status (PubWriteHeader c) = True"
| "pub_sets_status (PubWrite buf) = True"
| "pub_sets_status PubFlush = True"
| "pub_sets_status (PubSetContent data) = True"
| "pub_sets_status x = False"

definition CodeCatcher_run ::
  "codec \<Rightarrow> pub_op list \<Rightarrow> CodeCatcher \<times> world \<Rightarrow> CodeCatcher \<times> world" where
  "CodeCatcher_run cd ops st = fold (CodeCatcher_apply cd) ops st"

text \<open>
  The middleware. Its compiled rewrite rules play no part in \<^verbatim>\<open>ServeHTTP\<close> and are
  kept as pairs of pattern and replacement.
\<close>

record rewriteBody =
  rb_name :: string
  rb_next :: "Request \<Rightarrow> op list"
  rb_rewrites :: "(string \<times> byte list) list"
  rb_lastModified :: bool
  rb_httpCodeRanges :: HTTPCodeRanges

definition ServeHTTP ::
  "rewriteBody \<Rightarrow> ResponseWriter \<Rightarrow> Request \<Rightarrow> world \<Rightarrow> ResponseWriter \<times> world" where
  "ServeHTTP bodyRewrite response req w =
     (if \<not> SupportsProcessing req then rw_run (rb_next bodyRewrite req) (response, w)
      else
        let w1 = log_Print LogBeforeCatcher w;
            (catcher, w2) = newCodeCatcher response (rb_httpCodeRanges bodyRewrite) w1;
            w3 = log_Print LogCatcher w2;
            (cc, w4) = cc_run (rb_next bodyRewrite req) (embedded catcher, w3);
            w5 = log_Print LogAfterServe w4;
            w6 = log_Print (LogStatus (getCode cc)) w5
        in if \<not> isFilteredCode cc then (responseWriter cc, w6)
           else (responseWriter cc, log_Print (LogStatus (getCode cc)) w6))"

section \<open>Concrete inputs\<close>

text \<open>
  A sink that accepts every write, with one header already set; a world that holds the
  sink's header map under reference 0; the range 500 to 599; a codec whose encoder fails
  and leaves one byte behind; the bodies used below.
\<close>

definition ex_world :: world where
  "ex_world = \<lparr>maps = (\<lambda>r. if r = 0 then Some [(''Server'', [''up''])] else None),
               nextRef = 1, logged = []\<rparr>"

definition ex_sink :: ResponseWriter where
  "ex_sink = \<lparr>rwHeader = 0, rwCalls = [], rwWriteResult = (\<lambda>buf. (int (length buf), None)),
              rwFlusher = True, rwHijacker = False, rwCloseNotifier = False,
              rwType = ''*http.response''\<rparr>"

definition ex_ranges :: HTTPCodeRanges where
  "ex_ranges = [(500, 599)]"

definition body_err :: "byte list" where
  "body_err = [111, 111, 112, 115]"

definition body_hi :: "byte list" where
  "body_hi = [104, 105]"

definition failing_codec :: codec where
  "failing_codec = \<lparr>Decode = (\<lambda>buf enc. (([], Some ''bad input''), [])),
                     Encode = (\<lambda>data enc. ([255], Some ''encoder failed''))\<rparr>"

text \<open>
  A request that asks for a websocket, one that offers h2c and websocket on two Upgrade
  lines, and a middleware whose next handler answers 503.
\<close>

definition ex_upgrade :: Request where
  "ex_upgrade = \<lparr>Method = ''GET'', reqHeader = [(''Upgrade'', [''websocket''])]\<rparr>"

definition ex_two_upgrades :: Request where
  "ex_two_upgrades = \<lparr>Method = ''GET'', reqHeader = [(''Upgrade'', [''h2c'', ''websocket''])]\<rparr>"

definition ex_middleware :: rewriteBody where
  "ex_middleware = \<lparr>rb_name = ''pretty'', rb_next = (\<lambda>req. [OpWriteHeader 503, OpWrite body_err]),
                    rb_rewrites = [], rb_lastModified = False, rb_httpCodeRanges = ex_ranges\<rparr>"

text \<open>The interceptor and the world as the handler first meets them.\<close>

definition cc_start :: "ResponseWriter \<Rightarrow> HTTPCodeRanges \<Rightarrow> world \<Rightarrow> codeCatcher \<times> world" where
  "cc_start rw ranges w =
     (embedded (fst (newCodeCatcher rw ranges w)), snd (newCodeCatcher rw ranges w))"

definition CodeCatcher_start ::
  "ResponseWriter \<Rightarrow> HTTPCodeRanges \<Rightarrow> world \<Rightarrow> CodeCatcher \<times> world" where
  "CodeCatcher_start rw ranges w =
     (pub_embedded (fst (NewCodeCatcher rw ranges w)), snd (NewCodeCatcher rw ranges w))"

text \<open>The two interceptors after a handler has put two headers into the buffer.\<close>

definition ex_headers :: "Header \<Rightarrow> Header" where
  "ex_headers h = [(''Set-Cookie'', [''a=1'', ''b=2'']), (''Server'', [''down''])]"

definition ex_with_headers :: "codeCatcher \<times> world" where
  "ex_with_headers = cc_apply (OpHeader ex_headers) (cc_start ex_sink ex_ranges ex_world)"

definition ex_pub_with_headers :: "CodeCatcher \<times> world" where
  "ex_pub_with_headers =
     CodeCatcher_apply failing_codec (PubHeader ex_headers)
       (CodeCatcher_start ex_sink ex_ranges ex_world)"

text \<open>The exported interceptor with an upstream body of four bytes in its buffer.\<close>

definition ex_buffered :: "CodeCatcher \<times> world" where
  "ex_buffered = CodeCatcher_apply failing_codec (PubBuffer (\<lambda>b. body_err))
                   (CodeCatcher_start ex_sink ex_ranges ex_world)"

text \<open>
  A header change made late, and the two interceptors after a handler has set one header
  and status 200.
\<close>

definition ex_late :: "Header \<Rightarrow> Header" where
  "ex_late h = (''X-Late'', [''1'']) # h"

definition ex_committed :: "codeCatcher \<times> world" where
  "ex_committed = cc_run [OpHeader (\<lambda>h. [(''X-A'', [''1''])]), OpWriteHeader 200]
                    (cc_start ex_sink ex_ranges ex_world)"

definition ex_pub_committed :: "CodeCatcher \<times> world" where
  "ex_pub_committed =
     CodeCatcher_run failing_codec [PubHeader (\<lambda>h. [(''X-A'', [''1''])]), PubWriteHeader 200]
       (CodeCatcher_start ex_sink ex_ranges ex_world)"

section \<open>The store and CopyHeaders\<close>

lemma deref_assign: "deref (assign r h w) r' = (if r' = r then h else deref w r')"
  by (simp add: deref_def assign_def)

lemma Header_index_update:
  "Header_index (AList.update k v h) k' = (if k' = k then v else Header_index h k')"
  by (simp add: Header_index_def update_conv')

lemma Header_index_absent: "k \<notin> fst ` set h \<Longrightarrow> Header_index h k = []"
  by (simp add: Header_index_def map_of_eq_None_iff [THEN iffD2])

lemma Header_index_Cons:
  "Header_index (e # es) k = (if k = fst e then snd e else Header_index es k)"
  by (cases e) (simp add: Header_index_def)

text \<open>
  Walking through entries with distinct keys appends, under every key, the values the
  entries hold for it to the values already there.
\<close>

lemma fold_append_entry_index:
  "distinct (map fst es) \<Longrightarrow>
   Header_index (fold append_entry es h) k = Header_index h k @ Header_index es k"
proof (induction es arbitrary: h)
  case Nil
  show ?case by (simp add: Header_index_def)
next
  case (Cons e es)
  from Cons.prems have d: "distinct (map fst es)" and fresh: "fst e \<notin> fst ` set es"
    by auto
  have "Header_index (fold append_entry (e # es) h) k
        = Header_index (append_entry e h) k @ Header_index es k"
    using Cons.IH [OF d] by simp
  also have "\<dots> = Header_index h k @ Header_index (e # es) k"
    using fresh
    by (simp add: append_entry_def Header_index_update Header_index_Cons Header_index_absent)
  finally show ?case .
qed

lemma fold_append_entry_keys:
  "fst ` set (fold append_entry es h) = fst ` set h \<union> fst ` set es"
  by (induction es arbitrary: h) (auto simp: append_entry_def dom_update)

lemma CopyHeaders_step_deref:
  "deref (CopyHeaders_step dst e w) r = (if r = dst then append_entry e (deref w dst) else deref w r)"
  by (simp add: CopyHeaders_step_def deref_assign)

lemma fold_CopyHeaders_step_deref:
  "deref (fold (CopyHeaders_step dst) es w) r =
     (if r = dst then fold append_entry es (deref w dst) else deref w r)"
  by (induction es arbitrary: w) (simp_all add: CopyHeaders_step_deref)

lemma CopyHeaders_deref:
  "deref (CopyHeaders dst src w) r =
     (if r = dst then fold append_entry (deref w src) (deref w dst) else deref w r)"
  by (simp add: CopyHeaders_def fold_CopyHeaders_step_deref)

lemma fold_CopyHeaders_step_rest:
  "nextRef (fold (CopyHeaders_step dst) es w) = nextRef w \<and>
   logged (fold (CopyHeaders_step dst) es w) = logged w"
  by (induction es arbitrary: w) (simp_all add: CopyHeaders_step_def assign_def)

lemma CopyHeaders_nextRef: "nextRef (CopyHeaders dst src w) = nextRef w"
  by (simp add: CopyHeaders_def fold_CopyHeaders_step_rest)

lemma CopyHeaders_logged: "logged (CopyHeaders dst src w) = logged w"
  by (simp add: CopyHeaders_def fold_CopyHeaders_step_rest)

section \<open>The status transition of the internal interceptor\<close>

lemma inCodeRanges_iff: "inCodeRanges c R = (\<exists>b \<in> set R. fst b \<le> c \<and> c \<le> snd b)"
  by (induction R) auto

lemma cc_Header_catcher:
  "fst (snd (cc_Header st)) = (fst st)\<lparr>headerMap := Some (fst (cc_Header st))\<rparr>"
  by (cases st) (simp add: cc_Header_def make_Header_def split: option.splits)

lemma cc_Header_Some:
  "headerMap (fst st) = Some r \<Longrightarrow> cc_Header st = (r, st)"
  by (simp add: cc_Header_def)

lemma cc_WriteHeader_done:
  "headersSent (fst st) \<or> caughtFilteredCode (fst st) \<Longrightarrow> cc_WriteHeader c st = st"
  by (simp add: cc_WriteHeader_def)

lemma cc_WriteHeader_caught:
  "\<not> headersSent (fst st) \<Longrightarrow> \<not> caughtFilteredCode (fst st) \<Longrightarrow>
   inCodeRanges c (httpCodeRanges (fst st)) \<Longrightarrow>
   cc_WriteHeader c st = ((fst st)\<lparr>code := c, caughtFilteredCode := True\<rparr>, snd st)"
  by (simp add: cc_WriteHeader_def)

lemma cc_WriteHeader_sent:
  "\<not> headersSent (fst st) \<Longrightarrow> \<not> caughtFilteredCode (fst st) \<Longrightarrow>
   \<not> inCodeRanges c (httpCodeRanges (fst st)) \<Longrightarrow>
   fst (cc_WriteHeader c st) =
     (fst st)\<lparr>code := c, headerMap := Some (fst (cc_Header st)),
              responseWriter := rw_WriteHeader c (responseWriter (fst st)), headersSent := True\<rparr>"
  by (cases st)
     (simp add: cc_WriteHeader_def cc_Header_def make_Header_def Let_def split: option.splits)

lemma cc_WriteHeader_sent_world:
  "\<not> headersSent (fst st) \<Longrightarrow> \<not> caughtFilteredCode (fst st) \<Longrightarrow>
   \<not> inCodeRanges c (httpCodeRanges (fst st)) \<Longrightarrow>
   snd (cc_WriteHeader c st) =
     CopyHeaders (rwHeader (responseWriter (fst st))) (fst (cc_Header st)) (snd (snd (cc_Header st)))"
  by (cases st)
     (simp add: cc_WriteHeader_def cc_Header_def make_Header_def Let_def split: option.splits)

lemma cc_Write_state:
  "snd (cc_Write buf st) =
     (if caughtFilteredCode (fst (cc_WriteHeader (code (fst st)) st))
      then cc_WriteHeader (code (fst st)) st
      else ((fst (cc_WriteHeader (code (fst st)) st))
              \<lparr>responseWriter :=
                 snd (rw_Write buf (responseWriter (fst (cc_WriteHeader (code (fst st)) st))))\<rparr>,
            snd (cc_WriteHeader (code (fst st)) st)))"
  by (simp add: cc_Write_def Let_def split: prod.splits)

lemma cc_Flush_state:
  "cc_Flush st =
     (if rwFlusher (responseWriter (fst (cc_WriteHeader (code (fst st)) st)))
      then ((fst (cc_WriteHeader (code (fst st)) st))
              \<lparr>responseWriter :=
                 rw_Flush (responseWriter (fst (cc_WriteHeader (code (fst st)) st)))\<rparr>,
            snd (cc_WriteHeader (code (fst st)) st))
      else cc_WriteHeader (code (fst st)) st)"
  by (simp add: cc_Flush_def Let_def split: prod.splits)

lemma cc_apply_OpHeader_catcher:
  "fst (cc_apply (OpHeader f) st) = (fst st)\<lparr>headerMap := Some (fst (cc_Header st))\<rparr>"
  by (cases st) (simp add: cc_Header_def make_Header_def split: option.splits)

lemma cc_start_simps:
  "headerMap (fst (cc_start rw R w)) = Some (nextRef w)"
  "code (fst (cc_start rw R w)) = 200"
  "httpCodeRanges (fst (cc_start rw R w)) = R"
  "caughtFilteredCode (fst (cc_start rw R w)) = False"
  "headersSent (fst (cc_start rw R w)) = False"
  "responseWriter (fst (cc_start rw R w)) = rw"
  "snd (cc_start rw R w) = w\<lparr>maps := (maps w)(nextRef w := Some []), nextRef := Suc (nextRef w)\<rparr>"
  by (simp_all add: cc_start_def newCodeCatcher_def make_Header_def StatusOK_def Let_def)

section \<open>The status transition of the exported interceptor\<close>

lemma CodeCatcher_Header_catcher:
  "fst (snd (CodeCatcher_Header st)) =
     (fst st)\<lparr>pub_headerMap := Some (fst (CodeCatcher_Header st))\<rparr>"
  by (cases st) (simp add: CodeCatcher_Header_def make_Header_def split: option.splits)

lemma CodeCatcher_Header_Some:
  "pub_headerMap (fst st) = Some r \<Longrightarrow> CodeCatcher_Header st = (r, st)"
  by (simp add: CodeCatcher_Header_def)

lemma CodeCatcher_WriteHeader_done:
  "pub_headersSent (fst st) \<or> pub_caughtFilteredCode (fst st) \<Longrightarrow>
   CodeCatcher_WriteHeader c st = st"
  by (simp add: CodeCatcher_WriteHeader_def)

lemma CodeCatcher_WriteHeader_caught:
  "\<not> pub_headersSent (fst st) \<Longrightarrow> \<not> pub_caughtFilteredCode (fst st) \<Longrightarrow>
   inCodeRanges c (pub_httpCodeRanges (fst st)) \<Longrightarrow>
   CodeCatcher_WriteHeader c st = ((fst st)\<lparr>pub_code := c, pub_caughtFilteredCode := True\<rparr>, snd st)"
  by (simp add: CodeCatcher_WriteHeader_def)

lemma CodeCatcher_WriteHeader_sent:
  "\<not> pub_headersSent (fst st) \<Longrightarrow> \<not> pub_caughtFilteredCode (fst st) \<Longrightarrow>
   \<not> inCodeRanges c (pub_httpCodeRanges (fst st)) \<Longrightarrow>
   fst (CodeCatcher_WriteHeader c st) =
     (fst st)\<lparr>pub_code := c, pub_headerMap := Some (fst (CodeCatcher_Header st)),
              pub_ResponseWriter := rw_WriteHeader c (pub_ResponseWriter (fst st)),
              pub_headersSent := True\<rparr>"
  by (cases st)
     (simp add: CodeCatcher_WriteHeader_def CodeCatcher_Header_def make_Header_def Let_def
           split: option.splits)

lemma CodeCatcher_WriteHeader_sent_world:
  "\<not> pub_headersSent (fst st) \<Longrightarrow> \<not> pub_caughtFilteredCode (fst st) \<Longrightarrow>
   \<not> inCodeRanges c (pub_httpCodeRanges (fst st)) \<Longrightarrow>
   snd (CodeCatcher_WriteHeader c st) =
     CopyHeaders (rwHeader (pub_ResponseWriter (fst st))) (fst (CodeCatcher_Header st))
       (snd (snd (CodeCatcher_Header st)))"
  by (cases st)
     (simp add: CodeCatcher_WriteHeader_def CodeCatcher_Header_def make_Header_def Let_def
           split: option.splits)

lemma CodeCatcher_start_simps:
  "pub_headerMap (fst (CodeCatcher_start rw R w)) = Some (nextRef w)"
  "pub_code (fst (CodeCatcher_start rw R w)) = 200"
  "pub_httpCodeRanges (fst (CodeCatcher_start rw R w)) = R"
  "pub_caughtFilteredCode (fst (CodeCatcher_start rw R w)) = False"
  "pub_headersSent (fst (CodeCatcher_start rw R w)) = False"
  "pub_wroteHeader (fst (CodeCatcher_start rw R w)) = False"
  "pub_buffer (fst (CodeCatcher_start rw R w)) = []"
  "pub_ResponseWriter (fst (CodeCatcher_start rw R w)) = rw"
  "snd (CodeCatcher_start rw R w) =
     w\<lparr>maps := (maps w)(nextRef w := Some []), nextRef := Suc (nextRef w)\<rparr>"
  by (simp_all add: CodeCatcher_start_def NewCodeCatcher_def make_Header_def StatusOK_def Let_def)

lemma ex_ranges_codes: "inCodeRanges 503 ex_ranges" "\<not> inCodeRanges 200 ex_ranges"
  by (simp_all add: ex_ranges_def)

section \<open>The range check decides the first status\<close>

text \<open>
  Claim C3. On an interceptor that has made no transition yet, a status code \<open>c\<close> is
  classified as filtered exactly when some pair (low, high) of the configured ranges
  has \<open>low \<le> c \<le> high\<close>, both ends included; the answer is a function of \<open>c\<close> and
  the ranges alone. This holds for the internal and for the exported interceptor.
\<close>

theorem status_filtered_iff_in_some_range:
  "(\<not> headersSent (fst st) \<and> \<not> caughtFilteredCode (fst st) \<longrightarrow>
      isFilteredCode (fst (cc_WriteHeader c st)) =
        (\<exists>(low, high) \<in> set (httpCodeRanges (fst st)). low \<le> c \<and> c \<le> high))
   \<and> (\<not> pub_headersSent (fst pst) \<and> \<not> pub_caughtFilteredCode (fst pst) \<longrightarrow>
      IsFilteredCode (fst (CodeCatcher_WriteHeader c pst)) =
        (\<exists>(low, high) \<in> set (pub_httpCodeRanges (fst pst)). low \<le> c \<and> c \<le> high))"
proof -
  have m: "inCodeRanges c R = (\<exists>(low, high) \<in> set R. low \<le> c \<and> c \<le> high)" for R
    by (induction R) auto
  have a: "isFilteredCode (fst (cc_WriteHeader c st)) = inCodeRanges c (httpCodeRanges (fst st))"
    if "\<not> headersSent (fst st)" "\<not> caughtFilteredCode (fst st)"
  proof (cases "inCodeRanges c (httpCodeRanges (fst st))")
    case True
    with that show ?thesis by (simp add: cc_WriteHeader_caught isFilteredCode_def)
  next
    case False
    with that show ?thesis by (simp add: cc_WriteHeader_sent isFilteredCode_def)
  qed
  have b: "IsFilteredCode (fst (CodeCatcher_WriteHeader c pst))
           = inCodeRanges c (pub_httpCodeRanges (fst pst))"
    if "\<not> pub_headersSent (fst pst)" "\<not> pub_caughtFilteredCode (fst pst)"
  proof (cases "inCodeRanges c (pub_httpCodeRanges (fst pst))")
    case True
    with that show ?thesis by (simp add: CodeCatcher_WriteHeader_caught IsFilteredCode_def)
  next
    case False
    with that show ?thesis by (simp add: CodeCatcher_WriteHeader_sent IsFilteredCode_def)
  qed
  from a b show ?thesis by (simp add: m)
qed

theorem status_filtered_iff_in_some_range_witness:
  "\<not> headersSent (fst (cc_start ex_sink ex_ranges ex_world))
   \<and> \<not> caughtFilteredCode (fst (cc_start ex_sink ex_ranges ex_world))
   \<and> \<not> pub_headersSent (fst (CodeCatcher_start ex_sink ex_ranges ex_world))
   \<and> \<not> pub_caughtFilteredCode (fst (CodeCatcher_start ex_sink ex_ranges ex_world))
   \<and> isFilteredCode (fst (cc_WriteHeader 503 (cc_start ex_sink ex_ranges ex_world)))
   \<and> IsFilteredCode (fst (CodeCatcher_WriteHeader 503 (CodeCatcher_start ex_sink ex_ranges ex_world)))
   \<and> \<not> isFilteredCode (fst (cc_WriteHeader 404 (cc_start ex_sink ex_ranges ex_world)))
   \<and> \<not> IsFilteredCode (fst (CodeCatcher_WriteHeader 404 (CodeCatcher_start ex_sink ex_ranges ex_world)))"
  using status_filtered_iff_in_some_range
          [of "cc_start ex_sink ex_ranges ex_world" 503 "CodeCatcher_start ex_sink ex_ranges ex_world"]
        status_filtered_iff_in_some_range
          [of "cc_start ex_sink ex_ranges ex_world" 404 "CodeCatcher_start ex_sink ex_ranges ex_world"]
  by (simp add: cc_start_simps CodeCatcher_start_simps ex_ranges_def)

section \<open>Later status calls\<close>

text \<open>
  Claim C5. Once the first status transition has happened (to filtered or to committed),
  a later status-setting call with any code leaves everything as it was: the recorded
  status, both flags, the real sink and the world around it. This holds for the internal
  and for the exported interceptor.
\<close>

theorem later_status_call_ignored:
  "(headersSent (fst st) \<or> caughtFilteredCode (fst st) \<longrightarrow> cc_WriteHeader c st = st)
   \<and> (pub_headersSent (fst pst) \<or> pub_caughtFilteredCode (fst pst) \<longrightarrow>
        CodeCatcher_WriteHeader c' pst = pst)"
  by (simp add: cc_WriteHeader_def CodeCatcher_WriteHeader_def)

theorem later_status_call_ignored_witness:
  "caughtFilteredCode (fst (cc_WriteHeader 503 (cc_start ex_sink ex_ranges ex_world)))
   \<and> cc_WriteHeader 200 (cc_WriteHeader 503 (cc_start ex_sink ex_ranges ex_world))
       = cc_WriteHeader 503 (cc_start ex_sink ex_ranges ex_world)
   \<and> pub_headersSent (fst (CodeCatcher_WriteHeader 200 (CodeCatcher_start ex_sink ex_ranges ex_world)))
   \<and> CodeCatcher_WriteHeader 503 (CodeCatcher_WriteHeader 200 (CodeCatcher_start ex_sink ex_ranges ex_world))
       = CodeCatcher_WriteHeader 200 (CodeCatcher_start ex_sink ex_ranges ex_world)"
proof -
  have a: "caughtFilteredCode (fst (cc_WriteHeader 503 (cc_start ex_sink ex_ranges ex_world)))"
    by (simp add: cc_WriteHeader_caught cc_start_simps ex_ranges_codes)
  have b: "pub_headersSent
             (fst (CodeCatcher_WriteHeader 200 (CodeCatcher_start ex_sink ex_ranges ex_world)))"
    by (simp add: CodeCatcher_WriteHeader_sent CodeCatcher_start_simps ex_ranges_codes)
  from a b show ?thesis
    using later_status_call_ignored
            [of "cc_WriteHeader 503 (cc_start ex_sink ex_ranges ex_world)" 200
                "CodeCatcher_WriteHeader 200 (CodeCatcher_start ex_sink ex_ranges ex_world)" 503]
    by simp
qed

section \<open>The two flags exclude each other\<close>

lemma cc_WriteHeader_exclusive:
  "\<not> (headersSent (fst st) \<and> caughtFilteredCode (fst st)) \<Longrightarrow>
   \<not> (headersSent (fst (cc_WriteHeader c st)) \<and> caughtFilteredCode (fst (cc_WriteHeader c st)))"
proof (cases "headersSent (fst st) \<or> caughtFilteredCode (fst st)")
  case True
  assume "\<not> (headersSent (fst st) \<and> caughtFilteredCode (fst st))"
  with True show ?thesis by (simp add: cc_WriteHeader_done)
next
  case False
  then show ?thesis
    by (cases "inCodeRanges c (httpCodeRanges (fst st))")
       (simp_all add: cc_WriteHeader_caught cc_WriteHeader_sent)
qed

lemma cc_apply_exclusive:
  assumes "\<not> (headersSent (fst st) \<and> caughtFilteredCode (fst st))"
  shows "\<not> (headersSent (fst (cc_apply x st)) \<and> caughtFilteredCode (fst (cc_apply x st)))"
proof (cases x)
  case (OpHeader f)
  with assms show ?thesis
    by (simp add: cc_apply_OpHeader_catcher del: cc_apply.simps)
next
  case (OpWriteHeader c)
  with assms show ?thesis by (simp add: cc_WriteHeader_exclusive)
next
  case (OpWrite buf)
  from assms
  have "\<not> (headersSent (fst (cc_WriteHeader (code (fst st)) st))
           \<and> caughtFilteredCode (fst (cc_WriteHeader (code (fst st)) st)))"
    by (rule cc_WriteHeader_exclusive)
  then show ?thesis using OpWrite by (auto simp: cc_Write_state)
next
  case OpFlush
  from assms
  have "\<not> (headersSent (fst (cc_WriteHeader (code (fst st)) st))
           \<and> caughtFilteredCode (fst (cc_WriteHeader (code (fst st)) st)))"
    by (rule cc_WriteHeader_exclusive)
  then show ?thesis using OpFlush by (auto simp: cc_Flush_state)
next
  case OpHijack
  with assms show ?thesis by (auto simp: cc_Hijack_def)
qed

lemma cc_run_exclusive:
  "\<not> (headersSent (fst st) \<and> caughtFilteredCode (fst st)) \<Longrightarrow>
   \<not> (headersSent (fst (cc_run ops st)) \<and> caughtFilteredCode (fst (cc_run ops st)))"
  unfolding cc_run_def
proof (induction ops arbitrary: st)
  case Nil
  then show ?case by simp
next
  case (Cons x ops)
  from Cons.prems have "\<not> (headersSent (fst (cc_apply x st)) \<and> caughtFilteredCode (fst (cc_apply x st)))"
    by (rule cc_apply_exclusive)
  then show ?case using Cons.IH [of "cc_apply x st"] by simp
qed

lemma CodeCatcher_Write_state:
  "snd (CodeCatcher_Write buf st) =
     ((fst (CodeCatcher_WriteHeader (pub_code (fst st)) st))
        \<lparr>pub_ResponseWriter :=
           snd (rw_Write buf (pub_ResponseWriter (fst (CodeCatcher_WriteHeader (pub_code (fst st)) st))))\<rparr>,
      snd (CodeCatcher_WriteHeader (pub_code (fst st)) st))"
  by (simp add: CodeCatcher_Write_def Let_def split: prod.splits)

lemma CodeCatcher_Flush_state:
  "CodeCatcher_Flush st =
     (if rwFlusher (pub_ResponseWriter (fst (CodeCatcher_WriteHeader (pub_code (fst st)) st)))
      then ((fst (CodeCatcher_WriteHeader (pub_code (fst st)) st))
              \<lparr>pub_ResponseWriter :=
                 rw_Flush (pub_ResponseWriter (fst (CodeCatcher_WriteHeader (pub_code (fst st)) st)))\<rparr>,
            snd (CodeCatcher_WriteHeader (pub_code (fst st)) st))
      else CodeCatcher_WriteHeader (pub_code (fst st)) st)"
  by (simp add: CodeCatcher_Flush_def Let_def split: prod.splits)

lemma CodeCatcher_apply_PubHeader_catcher:
  "fst (CodeCatcher_apply cd (PubHeader f) st) =
     (fst st)\<lparr>pub_headerMap := Some (fst (CodeCatcher_Header st))\<rparr>"
  by (cases st) (simp add: CodeCatcher_Header_def make_Header_def split: option.splits)

lemma SetContent_catcher:
  "fst (SetContent cd data st) =
     (fst (if \<not> pub_wroteHeader (fst st) then CodeCatcher_WriteHeader StatusOK st else st))
       \<lparr>pub_ResponseWriter :=
          snd (rw_Write (fst (Encode cd data (getContentEncoding st)))
                 (pub_ResponseWriter
                    (fst (if \<not> pub_wroteHeader (fst st) then CodeCatcher_WriteHeader StatusOK st else st))))\<rparr>"
  by (simp add: SetContent_def Let_def CodeCatcher_LogHeaders_def split: prod.splits option.splits)

lemma CodeCatcher_WriteHeader_exclusive:
  "\<not> (pub_headersSent (fst st) \<and> pub_caughtFilteredCode (fst st)) \<Longrightarrow>
   \<not> (pub_headersSent (fst (CodeCatcher_WriteHeader c st))
       \<and> pub_caughtFilteredCode (fst (CodeCatcher_WriteHeader c st)))"
proof (cases "pub_headersSent (fst st) \<or> pub_caughtFilteredCode (fst st)")
  case True
  assume "\<not> (pub_headersSent (fst st) \<and> pub_caughtFilteredCode (fst st))"
  with True show ?thesis by (simp add: CodeCatcher_WriteHeader_done)
next
  case False
  then show ?thesis
    by (cases "inCodeRanges c (pub_httpCodeRanges (fst st))")
       (simp_all add: CodeCatcher_WriteHeader_caught CodeCatcher_WriteHeader_sent)
qed

lemma CodeCatcher_apply_exclusive:
  assumes "\<not> (pub_headersSent (fst st) \<and> pub_caughtFilteredCode (fst st))"
  shows "\<not> (pub_headersSent (fst (CodeCatcher_apply cd x st))
            \<and> pub_caughtFilteredCode (fst (CodeCatcher_apply cd x st)))"
proof (cases x)
  case (PubHeader f)
  with assms show ?thesis
    by (simp add: CodeCatcher_apply_PubHeader_catcher del: CodeCatcher_apply.simps)
next
  case (PubWriteHeader c)
  with assms show ?thesis by (simp add: CodeCatcher_WriteHeader_exclusive)
next
  case (PubWrite buf)
  from assms
  have "\<not> (pub_headersSent (fst (CodeCatcher_WriteHeader (pub_code (fst st)) st))
           \<and> pub_caughtFilteredCode (fst (CodeCatcher_WriteHeader (pub_code (fst st)) st)))"
    by (rule CodeCatcher_WriteHeader_exclusive)
  then show ?thesis using PubWrite by (auto simp: CodeCatcher_Write_state)
next
  case PubFlush
  from assms
  have "\<not> (pub_headersSent (fst (CodeCatcher_WriteHeader (pub_code (fst st)) st))
           \<and> pub_caughtFilteredCode (fst (CodeCatcher_WriteHeader (pub_code (fst st)) st)))"
    by (rule CodeCatcher_WriteHeader_exclusive)
  then show ?thesis using PubFlush by (auto simp: CodeCatcher_Flush_state)
next
  case PubHijack
  with assms show ?thesis by (auto simp: CodeCatcher_Hijack_def)
next
  case PubGetContent
  with assms show ?thesis by (auto simp: GetContent_def Let_def split: prod.splits)
next
  case (PubSetContent data)
  from assms
  have "\<not> (pub_headersSent (fst (CodeCatcher_WriteHeader StatusOK st))
           \<and> pub_caughtFilteredCode (fst (CodeCatcher_WriteHeader StatusOK st)))"
    by (rule CodeCatcher_WriteHeader_exclusive)
  with assms show ?thesis using PubSetContent by (auto simp: SetContent_catcher)
next
  case (PubSetLastModified v)
  with assms show ?thesis by (auto simp: SetLastModified_def)
next
  case (PubBuffer g)
  with assms show ?thesis by auto
qed

lemma CodeCatcher_run_exclusive:
  "\<not> (pub_headersSent (fst st) \<and> pub_caughtFilteredCode (fst st)) \<Longrightarrow>
   \<not> (pub_headersSent (fst (CodeCatcher_run cd ops st))
       \<and> pub_caughtFilteredCode (fst (CodeCatcher_run cd ops st)))"
  unfolding CodeCatcher_run_def
proof (induction ops arbitrary: st)
  case Nil
  then show ?case by simp
next
  case (Cons x ops)
  from Cons.prems
  have "\<not> (pub_headersSent (fst (CodeCatcher_apply cd x st))
           \<and> pub_caughtFilteredCode (fst (CodeCatcher_apply cd x st)))"
    by (rule CodeCatcher_apply_exclusive)
  then show ?case using Cons.IH [of "CodeCatcher_apply cd x st"] by simp
qed

text \<open>
  Claim C4. Whatever sequence of calls is made on an interceptor fresh from its
  constructor, \<open>headersSent\<close> and \<open>caughtFilteredCode\<close> are never both true. This
  holds for the internal and for the exported interceptor, the latter with its extra
  operations and any codec.
\<close>

theorem flags_never_both_set:
  "\<not> (headersSent (fst (cc_run ops (cc_start rw R w)))
      \<and> caughtFilteredCode (fst (cc_run ops (cc_start rw R w))))
   \<and> \<not> (pub_headersSent (fst (CodeCatcher_run cd pops (CodeCatcher_start rw' R' w')))
      \<and> pub_caughtFilteredCode (fst (CodeCatcher_run cd pops (CodeCatcher_start rw' R' w'))))"
  by (simp add: cc_run_exclusive CodeCatcher_run_exclusive cc_start_simps CodeCatcher_start_simps)


text \<open>The defining equations, grouped for evaluating the model on concrete inputs.\<close>

lemmas world_defs = deref_def assign_def make_Header_def log_Print_def Header_index_def
  Header_Get_def append_entry_def CopyHeaders_step_def CopyHeaders_def
lemmas sink_defs = rw_WriteHeader_def rw_Write_def rw_Flush_def rw_Hijack_def
lemmas cc_defs = cc_start_def newCodeCatcher_def cc_Header_def cc_WriteHeader_def cc_Write_def
  cc_Flush_def cc_Hijack_def cc_run_def getCode_def isFilteredCode_def StatusOK_def
lemmas pub_defs = CodeCatcher_start_def NewCodeCatcher_def CodeCatcher_Header_def
  CodeCatcher_WriteHeader_def CodeCatcher_Write_def CodeCatcher_Flush_def CodeCatcher_Hijack_def
  CodeCatcher_run_def GetCode_def IsFilteredCode_def GetContent_def SetContent_def
  SetLastModified_def GetBuffer_def CodeCatcher_getHeader_def CodeCatcher_LogHeaders_def
  getContentEncoding_def getContentType_def getSetCookie_def
lemmas ex_defs = ex_world_def ex_sink_def ex_ranges_def body_err_def body_hi_def failing_codec_def

theorem flags_never_both_set_witness:
  "caughtFilteredCode
     (fst (cc_run [OpWriteHeader 503, OpWrite body_err, OpWriteHeader 200, OpFlush]
            (cc_start ex_sink ex_ranges ex_world)))
   \<and> \<not> headersSent
     (fst (cc_run [OpWriteHeader 503, OpWrite body_err, OpWriteHeader 200, OpFlush]
            (cc_start ex_sink ex_ranges ex_world)))
   \<and> pub_headersSent
     (fst (CodeCatcher_run failing_codec [PubWriteHeader 200, PubSetContent body_hi, PubWriteHeader 503]
            (CodeCatcher_start ex_sink ex_ranges ex_world)))
   \<and> \<not> pub_caughtFilteredCode
     (fst (CodeCatcher_run failing_codec [PubWriteHeader 200, PubSetContent body_hi, PubWriteHeader 503]
            (CodeCatcher_start ex_sink ex_ranges ex_world)))"
proof -
  have a: "caughtFilteredCode
     (fst (cc_run [OpWriteHeader 503, OpWrite body_err, OpWriteHeader 200, OpFlush]
            (cc_start ex_sink ex_ranges ex_world)))"
    by (simp add: world_defs sink_defs cc_defs ex_defs Let_def)
  have b: "pub_headersSent
     (fst (CodeCatcher_run failing_codec [PubWriteHeader 200, PubSetContent body_hi, PubWriteHeader 503]
            (CodeCatcher_start ex_sink ex_ranges ex_world)))"
    by (simp add: world_defs sink_defs pub_defs ex_defs Let_def)
  from a b show ?thesis
    using flags_never_both_set
      [of "[OpWriteHeader 503, OpWrite body_err, OpWriteHeader 200, OpFlush]" ex_sink ex_ranges ex_world
          failing_codec "[PubWriteHeader 200, PubSetContent body_hi, PubWriteHeader 503]"
          ex_sink ex_ranges ex_world]
    by blast
qed

section \<open>Copying the buffered headers\<close>

text \<open>
  Claim C6. Copying the private header buffer into the real sink's header map only
  adds: under every header name, the sink afterwards holds the values it held before,
  followed by the buffered values in their order; nothing is overwritten or dropped, and
  the names afterwards are those of both maps. This is what either interceptor does when
  it commits a status outside the ranges. The keys of the buffer are pairwise distinct,
  as the keys of a map are.
\<close>

theorem headers_copied_additively:
  assumes "distinct (map fst (deref w src))"
  shows "Header_index (deref (CopyHeaders dst src w) dst) k
           = Header_index (deref w dst) k @ Header_index (deref w src) k
   \<and> fst ` set (deref (CopyHeaders dst src w) dst)
           = fst ` set (deref w dst) \<union> fst ` set (deref w src)
   \<and> (headerMap cc = Some src \<and> \<not> headersSent cc \<and> \<not> caughtFilteredCode cc
        \<and> \<not> inCodeRanges c (httpCodeRanges cc) \<longrightarrow>
        Header_index (deref (snd (cc_WriteHeader c (cc, w))) (rwHeader (responseWriter cc))) k
           = Header_index (deref w (rwHeader (responseWriter cc))) k @ Header_index (deref w src) k)
   \<and> (pub_headerMap pc = Some src \<and> \<not> pub_headersSent pc \<and> \<not> pub_caughtFilteredCode pc
        \<and> \<not> inCodeRanges c (pub_httpCodeRanges pc) \<longrightarrow>
        Header_index (deref (snd (CodeCatcher_WriteHeader c (pc, w))) (rwHeader (pub_ResponseWriter pc))) k
           = Header_index (deref w (rwHeader (pub_ResponseWriter pc))) k
             @ Header_index (deref w src) k)"
proof -
  have idx: "Header_index (deref (CopyHeaders d src w) d) k
               = Header_index (deref w d) k @ Header_index (deref w src) k" for d
    using assms by (simp add: CopyHeaders_deref fold_append_entry_index)
  have keys: "fst ` set (deref (CopyHeaders dst src w) dst)
                = fst ` set (deref w dst) \<union> fst ` set (deref w src)"
    by (simp add: CopyHeaders_deref fold_append_entry_keys)
  have commit: "snd (cc_WriteHeader c (cc, w)) = CopyHeaders (rwHeader (responseWriter cc)) src w"
    if "headerMap cc = Some src" "\<not> headersSent cc" "\<not> caughtFilteredCode cc"
       "\<not> inCodeRanges c (httpCodeRanges cc)"
    using that by (simp add: cc_WriteHeader_sent_world cc_Header_Some)
  have pub_commit: "snd (CodeCatcher_WriteHeader c (pc, w))
                      = CopyHeaders (rwHeader (pub_ResponseWriter pc)) src w"
    if "pub_headerMap pc = Some src" "\<not> pub_headersSent pc" "\<not> pub_caughtFilteredCode pc"
       "\<not> inCodeRanges c (pub_httpCodeRanges pc)"
    using that by (simp add: CodeCatcher_WriteHeader_sent_world CodeCatcher_Header_Some)
  from idx keys commit pub_commit show ?thesis by simp
qed

theorem headers_copied_additively_witness:
  "distinct (map fst (deref (snd ex_with_headers) (Suc 0)))
   \<and> snd ex_pub_with_headers = snd ex_with_headers
   \<and> headerMap (fst ex_with_headers) = Some (Suc 0)
   \<and> \<not> headersSent (fst ex_with_headers) \<and> \<not> caughtFilteredCode (fst ex_with_headers)
   \<and> pub_headerMap (fst ex_pub_with_headers) = Some (Suc 0)
   \<and> \<not> pub_headersSent (fst ex_pub_with_headers)
   \<and> \<not> pub_caughtFilteredCode (fst ex_pub_with_headers)
   \<and> \<not> inCodeRanges 200 ex_ranges
   \<and> Header_index (deref (snd (cc_WriteHeader 200 ex_with_headers)) 0) ''Server''
       = [''up'', ''down'']
   \<and> Header_index (deref (snd (cc_WriteHeader 200 ex_with_headers)) 0) ''Set-Cookie''
       = [''a=1'', ''b=2'']
   \<and> Header_index (deref (snd (CodeCatcher_WriteHeader 200 ex_pub_with_headers)) 0) ''Server''
       = [''up'', ''down'']
   \<and> Header_index (deref (snd (CodeCatcher_WriteHeader 200 ex_pub_with_headers)) 0) ''Set-Cookie''
       = [''a=1'', ''b=2'']"
proof -
  have m: "deref (snd ex_with_headers) (Suc 0)
             = [(''Set-Cookie'', [''a=1'', ''b=2'']), (''Server'', [''down''])]"
    by (simp add: ex_with_headers_def ex_headers_def world_defs cc_defs ex_defs Let_def)
  have s: "deref (snd ex_with_headers) 0 = [(''Server'', [''up''])]"
    by (simp add: ex_with_headers_def ex_headers_def world_defs cc_defs ex_defs Let_def)
  have c: "headerMap (fst ex_with_headers) = Some (Suc 0)" "\<not> headersSent (fst ex_with_headers)"
          "\<not> caughtFilteredCode (fst ex_with_headers)"
          "httpCodeRanges (fst ex_with_headers) = ex_ranges"
          "rwHeader (responseWriter (fst ex_with_headers)) = 0"
    by (simp_all add: ex_with_headers_def world_defs cc_defs ex_world_def ex_sink_def Let_def)
  have p: "pub_headerMap (fst ex_pub_with_headers) = Some (Suc 0)"
          "\<not> pub_headersSent (fst ex_pub_with_headers)"
          "\<not> pub_caughtFilteredCode (fst ex_pub_with_headers)"
          "pub_httpCodeRanges (fst ex_pub_with_headers) = ex_ranges"
          "rwHeader (pub_ResponseWriter (fst ex_pub_with_headers)) = 0"
    by (simp_all add: ex_pub_with_headers_def world_defs pub_defs StatusOK_def ex_world_def
          ex_sink_def Let_def)
  have w: "snd ex_pub_with_headers = snd ex_with_headers"
    by (simp add: ex_pub_with_headers_def ex_with_headers_def world_defs pub_defs cc_defs Let_def)
  have d: "distinct (map fst (deref (snd ex_with_headers) (Suc 0)))"
    unfolding m by simp
  note copied = headers_copied_additively
                  [OF d, where dst = 0 and cc = "fst ex_with_headers" and c = 200
                     and pc = "fst ex_pub_with_headers"]
  have q: "(fst ex_pub_with_headers, snd ex_with_headers) = ex_pub_with_headers"
    by (simp add: w [symmetric])
  show ?thesis
    using copied [where k = "''Server''"] copied [where k = "''Set-Cookie''"]
    by (simp add: m s c p w q ex_ranges_codes Header_index_def)
qed

section \<open>The implicit status\<close>

lemma sink_statuses_append:
  "sink_statuses (xs @ ys) = sink_statuses xs @ sink_statuses ys"
  by (induction xs rule: sink_statuses.induct) simp_all

lemma sink_bytes_append:
  "sink_bytes (xs @ ys) = sink_bytes xs @ sink_bytes ys"
  by (induction xs rule: sink_bytes.induct) simp_all

text \<open>
  Calls that do not set the status leave the recorded status, the flags and the ranges
  alone, and the sink receives no status from them.
\<close>

lemma cc_apply_no_status:
  assumes "\<not> sets_status x"
  shows "code (fst (cc_apply x st)) = code (fst st)
       \<and> headersSent (fst (cc_apply x st)) = headersSent (fst st)
       \<and> caughtFilteredCode (fst (cc_apply x st)) = caughtFilteredCode (fst st)
       \<and> httpCodeRanges (fst (cc_apply x st)) = httpCodeRanges (fst st)
       \<and> sink_statuses (rwCalls (responseWriter (fst (cc_apply x st))))
           = sink_statuses (rwCalls (responseWriter (fst st)))"
proof (cases x)
  case (OpHeader f)
  then show ?thesis by (simp add: cc_apply_OpHeader_catcher del: cc_apply.simps)
next
  case OpHijack
  then show ?thesis by (simp add: cc_Hijack_def rw_Hijack_def sink_statuses_append)
qed (use assms in simp_all)

lemma cc_run_no_status:
  "\<forall>x \<in> set ops. \<not> sets_status x \<Longrightarrow>
   code (fst (cc_run ops st)) = code (fst st)
   \<and> headersSent (fst (cc_run ops st)) = headersSent (fst st)
   \<and> caughtFilteredCode (fst (cc_run ops st)) = caughtFilteredCode (fst st)
   \<and> httpCodeRanges (fst (cc_run ops st)) = httpCodeRanges (fst st)
   \<and> sink_statuses (rwCalls (responseWriter (fst (cc_run ops st))))
       = sink_statuses (rwCalls (responseWriter (fst st)))"
  unfolding cc_run_def
proof (induction ops arbitrary: st)
  case Nil
  show ?case by simp
next
  case (Cons x ops)
  from Cons.prems have x: "\<not> sets_status x" and rest: "\<forall>y \<in> set ops. \<not> sets_status y"
    by simp_all
  show ?case
    using Cons.IH [OF rest, of "cc_apply x st"] cc_apply_no_status [OF x, of st] by simp
qed

text \<open>What the first write or flush does to an interceptor that is still open.\<close>

lemma cc_WriteHeader_open:
  assumes "\<not> headersSent (fst st)" "\<not> caughtFilteredCode (fst st)"
  shows "code (fst (cc_WriteHeader c st)) = c"
    and "caughtFilteredCode (fst (cc_WriteHeader c st)) = inCodeRanges c (httpCodeRanges (fst st))"
    and "headersSent (fst (cc_WriteHeader c st)) = (\<not> inCodeRanges c (httpCodeRanges (fst st)))"
    and "rwCalls (responseWriter (fst (cc_WriteHeader c st)))
           = rwCalls (responseWriter (fst st))
             @ (if inCodeRanges c (httpCodeRanges (fst st)) then [] else [SinkWriteHeader c])"
  using assms
  by (cases "inCodeRanges c (httpCodeRanges (fst st))";
      simp add: cc_WriteHeader_caught cc_WriteHeader_sent rw_WriteHeader_def)+

lemma CodeCatcher_apply_no_status:
  assumes "\<not> pub_sets_status x"
  shows "pub_code (fst (CodeCatcher_apply cd x st)) = pub_code (fst st)
       \<and> pub_headersSent (fst (CodeCatcher_apply cd x st)) = pub_headersSent (fst st)
       \<and> pub_caughtFilteredCode (fst (CodeCatcher_apply cd x st)) = pub_caughtFilteredCode (fst st)
       \<and> pub_httpCodeRanges (fst (CodeCatcher_apply cd x st)) = pub_httpCodeRanges (fst st)
       \<and> sink_statuses (rwCalls (pub_ResponseWriter (fst (CodeCatcher_apply cd x st))))
           = sink_statuses (rwCalls (pub_ResponseWriter (fst st)))"
proof (cases x)
  case (PubHeader f)
  then show ?thesis
    by (simp add: CodeCatcher_apply_PubHeader_catcher del: CodeCatcher_apply.simps)
next
  case PubHijack
  then show ?thesis by (simp add: CodeCatcher_Hijack_def rw_Hijack_def sink_statuses_append)
next
  case PubGetContent
  then show ?thesis by (simp add: GetContent_def Let_def split: prod.splits)
next
  case (PubSetLastModified v)
  then show ?thesis by (simp add: SetLastModified_def)
next
  case (PubBuffer g)
  then show ?thesis by simp
qed (use assms in simp_all)

lemma CodeCatcher_run_no_status:
  "\<forall>x \<in> set ops. \<not> pub_sets_status x \<Longrightarrow>
   pub_code (fst (CodeCatcher_run cd ops st)) = pub_code (fst st)
   \<and> pub_headersSent (fst (CodeCatcher_run cd ops st)) = pub_headersSent (fst st)
   \<and> pub_caughtFilteredCode (fst (CodeCatcher_run cd ops st)) = pub_caughtFilteredCode (fst st)
   \<and> pub_httpCodeRanges (fst (CodeCatcher_run cd ops st)) = pub_httpCodeRanges (fst st)
   \<and> sink_statuses (rwCalls (pub_ResponseWriter (fst (CodeCatcher_run cd ops st))))
       = sink_statuses (rwCalls (pub_ResponseWriter (fst st)))"
  unfolding CodeCatcher_run_def
proof (induction ops arbitrary: st)
  case Nil
  show ?case by simp
next
  case (Cons x ops)
  from Cons.prems have x: "\<not> pub_sets_status x" and rest: "\<forall>y \<in> set ops. \<not> pub_sets_status y"
    by simp_all
  show ?case
    using Cons.IH [OF rest, of "CodeCatcher_apply cd x st"] CodeCatcher_apply_no_status [OF x, of cd st]
    by simp
qed

lemma CodeCatcher_WriteHeader_open:
  assumes "\<not> pub_headersSent (fst st)" "\<not> pub_caughtFilteredCode (fst st)"
  shows "pub_code (fst (CodeCatcher_WriteHeader c st)) = c"
    and "pub_caughtFilteredCode (fst (CodeCatcher_WriteHeader c st))
           = inCodeRanges c (pub_httpCodeRanges (fst st))"
    and "pub_headersSent (fst (CodeCatcher_WriteHeader c st))
           = (\<not> inCodeRanges c (pub_httpCodeRanges (fst st)))"
    and "rwCalls (pub_ResponseWriter (fst (CodeCatcher_WriteHeader c st)))
           = rwCalls (pub_ResponseWriter (fst st))
             @ (if inCodeRanges c (pub_httpCodeRanges (fst st)) then [] else [SinkWriteHeader c])"
  using assms
  by (cases "inCodeRanges c (pub_httpCodeRanges (fst st))";
      simp add: CodeCatcher_WriteHeader_caught CodeCatcher_WriteHeader_sent rw_WriteHeader_def)+

text \<open>
  Claim C7. On an interceptor fresh from its constructor, on which the handler has made
  no status-setting call (it may have changed headers, tried to take the connection over
  or, on the exported one, read the content or the buffer), the first body write and
  likewise the first flush make the status transition with status 200: the recorded
  status is 200, the interceptor is filtered exactly when the ranges hold 200, and
  otherwise it is committed and the sink receives the status 200. This holds for the
  internal and for the exported interceptor.
\<close>

theorem implicit_status_is_200:
  assumes "\<forall>x \<in> set ops. \<not> sets_status x"
    and "\<forall>x \<in> set pops. \<not> pub_sets_status x"
  shows "code (fst (snd (cc_Write buf (cc_run ops (cc_start rw R w))))) = 200
   \<and> caughtFilteredCode (fst (snd (cc_Write buf (cc_run ops (cc_start rw R w)))))
       = inCodeRanges 200 R
   \<and> headersSent (fst (snd (cc_Write buf (cc_run ops (cc_start rw R w)))))
       = (\<not> inCodeRanges 200 R)
   \<and> sink_statuses (rwCalls (responseWriter (fst (snd (cc_Write buf (cc_run ops (cc_start rw R w)))))))
       = sink_statuses (rwCalls rw) @ (if inCodeRanges 200 R then [] else [200])
   \<and> code (fst (cc_Flush (cc_run ops (cc_start rw R w)))) = 200
   \<and> caughtFilteredCode (fst (cc_Flush (cc_run ops (cc_start rw R w)))) = inCodeRanges 200 R
   \<and> headersSent (fst (cc_Flush (cc_run ops (cc_start rw R w)))) = (\<not> inCodeRanges 200 R)
   \<and> sink_statuses (rwCalls (responseWriter (fst (cc_Flush (cc_run ops (cc_start rw R w))))))
       = sink_statuses (rwCalls rw) @ (if inCodeRanges 200 R then [] else [200])
   \<and> pub_code (fst (snd (CodeCatcher_Write buf (CodeCatcher_run cd pops (CodeCatcher_start rw R w)))))
       = 200
   \<and> pub_caughtFilteredCode
         (fst (snd (CodeCatcher_Write buf (CodeCatcher_run cd pops (CodeCatcher_start rw R w)))))
       = inCodeRanges 200 R
   \<and> pub_headersSent
         (fst (snd (CodeCatcher_Write buf (CodeCatcher_run cd pops (CodeCatcher_start rw R w)))))
       = (\<not> inCodeRanges 200 R)
   \<and> sink_statuses (rwCalls (pub_ResponseWriter
         (fst (snd (CodeCatcher_Write buf (CodeCatcher_run cd pops (CodeCatcher_start rw R w)))))))
       = sink_statuses (rwCalls rw) @ (if inCodeRanges 200 R then [] else [200])
   \<and> pub_code (fst (CodeCatcher_Flush (CodeCatcher_run cd pops (CodeCatcher_start rw R w)))) = 200
   \<and> pub_caughtFilteredCode
         (fst (CodeCatcher_Flush (CodeCatcher_run cd pops (CodeCatcher_start rw R w))))
       = inCodeRanges 200 R
   \<and> pub_headersSent
         (fst (CodeCatcher_Flush (CodeCatcher_run cd pops (CodeCatcher_start rw R w))))
       = (\<not> inCodeRanges 200 R)
   \<and> sink_statuses (rwCalls (pub_ResponseWriter
         (fst (CodeCatcher_Flush (CodeCatcher_run cd pops (CodeCatcher_start rw R w))))))
       = sink_statuses (rwCalls rw) @ (if inCodeRanges 200 R then [] else [200])"
proof -
  let ?st = "cc_run ops (cc_start rw R w)"
  from cc_run_no_status [OF assms(1), of "cc_start rw R w"]
  have st: "code (fst ?st) = 200" "\<not> headersSent (fst ?st)" "\<not> caughtFilteredCode (fst ?st)"
           "httpCodeRanges (fst ?st) = R"
           "sink_statuses (rwCalls (responseWriter (fst ?st))) = sink_statuses (rwCalls rw)"
    by (simp_all add: cc_start_simps)
  note tr = cc_WriteHeader_open [OF st(2) st(3), of 200]
  have wr: "code (fst (snd (cc_Write buf ?st))) = 200
     \<and> caughtFilteredCode (fst (snd (cc_Write buf ?st))) = inCodeRanges 200 R
     \<and> headersSent (fst (snd (cc_Write buf ?st))) = (\<not> inCodeRanges 200 R)
     \<and> sink_statuses (rwCalls (responseWriter (fst (snd (cc_Write buf ?st)))))
         = sink_statuses (rwCalls rw) @ (if inCodeRanges 200 R then [] else [200])"
    using tr st by (simp add: cc_Write_state rw_Write_def sink_statuses_append)
  have fl: "code (fst (cc_Flush ?st)) = 200
     \<and> caughtFilteredCode (fst (cc_Flush ?st)) = inCodeRanges 200 R
     \<and> headersSent (fst (cc_Flush ?st)) = (\<not> inCodeRanges 200 R)
     \<and> sink_statuses (rwCalls (responseWriter (fst (cc_Flush ?st))))
         = sink_statuses (rwCalls rw) @ (if inCodeRanges 200 R then [] else [200])"
    using tr st by (simp add: cc_Flush_state rw_Flush_def sink_statuses_append)
  let ?pst = "CodeCatcher_run cd pops (CodeCatcher_start rw R w)"
  from CodeCatcher_run_no_status [OF assms(2), of cd "CodeCatcher_start rw R w"]
  have pst: "pub_code (fst ?pst) = 200" "\<not> pub_headersSent (fst ?pst)"
            "\<not> pub_caughtFilteredCode (fst ?pst)" "pub_httpCodeRanges (fst ?pst) = R"
            "sink_statuses (rwCalls (pub_ResponseWriter (fst ?pst))) = sink_statuses (rwCalls rw)"
    by (simp_all add: CodeCatcher_start_simps)
  note ptr = CodeCatcher_WriteHeader_open [OF pst(2) pst(3), of 200]
  have pwr: "pub_code (fst (snd (CodeCatcher_Write buf ?pst))) = 200
     \<and> pub_caughtFilteredCode (fst (snd (CodeCatcher_Write buf ?pst))) = inCodeRanges 200 R
     \<and> pub_headersSent (fst (snd (CodeCatcher_Write buf ?pst))) = (\<not> inCodeRanges 200 R)
     \<and> sink_statuses (rwCalls (pub_ResponseWriter (fst (snd (CodeCatcher_Write buf ?pst)))))
         = sink_statuses (rwCalls rw) @ (if inCodeRanges 200 R then [] else [200])"
    using ptr pst by (simp add: CodeCatcher_Write_state rw_Write_def sink_statuses_append)
  have pfl: "pub_code (fst (CodeCatcher_Flush ?pst)) = 200
     \<and> pub_caughtFilteredCode (fst (CodeCatcher_Flush ?pst)) = inCodeRanges 200 R
     \<and> pub_headersSent (fst (CodeCatcher_Flush ?pst)) = (\<not> inCodeRanges 200 R)
     \<and> sink_statuses (rwCalls (pub_ResponseWriter (fst (CodeCatcher_Flush ?pst))))
         = sink_statuses (rwCalls rw) @ (if inCodeRanges 200 R then [] else [200])"
    using ptr pst by (simp add: CodeCatcher_Flush_state rw_Flush_def sink_statuses_append)
  from wr fl pwr pfl show ?thesis by blast
qed

theorem implicit_status_is_200_witness:
  "\<not> sets_status (OpHeader ex_late) \<and> \<not> sets_status OpHijack
   \<and> \<not> pub_sets_status (PubHeader ex_late) \<and> \<not> pub_sets_status PubGetContent
   \<and> code (fst (snd (cc_Write body_hi
        (cc_run [OpHeader ex_late, OpHijack] (cc_start ex_sink ex_ranges ex_world))))) = 200
   \<and> sink_statuses (rwCalls (responseWriter (fst (snd (cc_Write body_hi
        (cc_run [OpHeader ex_late, OpHijack] (cc_start ex_sink ex_ranges ex_world))))))) = [200]
   \<and> caughtFilteredCode (fst (cc_Flush
        (cc_run [OpHeader ex_late, OpHijack] (cc_start ex_sink [(200, 299)] ex_world))))
   \<and> pub_code (fst (snd (CodeCatcher_Write body_hi
        (CodeCatcher_run failing_codec [PubHeader ex_late, PubGetContent]
           (CodeCatcher_start ex_sink ex_ranges ex_world))))) = 200
   \<and> sink_statuses (rwCalls (pub_ResponseWriter (fst (snd (CodeCatcher_Write body_hi
        (CodeCatcher_run failing_codec [PubHeader ex_late, PubGetContent]
           (CodeCatcher_start ex_sink ex_ranges ex_world))))))) = [200]
   \<and> pub_caughtFilteredCode (fst (CodeCatcher_Flush
        (CodeCatcher_run failing_codec [PubHeader ex_late, PubGetContent]
           (CodeCatcher_start ex_sink [(200, 299)] ex_world))))"
proof -
  have h: "\<forall>x \<in> set [OpHeader ex_late, OpHijack]. \<not> sets_status x"
    by simp
  have g: "\<forall>x \<in> set [PubHeader ex_late, PubGetContent]. \<not> pub_sets_status x"
    by simp
  show ?thesis
    using implicit_status_is_200 [OF h g, of body_hi ex_sink ex_ranges ex_world failing_codec]
          implicit_status_is_200 [OF h g, of body_hi ex_sink "[(200, 299)]" ex_world failing_codec]
    by (simp add: ex_ranges_def ex_sink_def del: cc_apply.simps CodeCatcher_apply.simps)
qed

section \<open>The support gate\<close>

lemma strings_Contains_iff:
  "strings_Contains s substr = (\<exists>pre post. s = pre @ substr @ post)"
proof (induction s)
  case Nil
  show ?case by auto
next
  case (Cons c s)
  have "(\<exists>pre post. c # s = pre @ substr @ post)
        = (prefix substr (c # s) \<or> (\<exists>pre post. s = pre @ substr @ post))"
    (is "?L = (?P \<or> ?R)")
  proof
    assume ?L
    then obtain pre post where e: "c # s = pre @ substr @ post" by blast
    show "?P \<or> ?R"
    proof (cases pre)
      case Nil
      with e show ?thesis by (simp add: prefix_def)
    next
      case (Cons a pre')
      with e have "s = pre' @ substr @ post" by simp
      then show ?thesis by blast
    qed
  next
    assume "?P \<or> ?R"
    then show ?L
    proof
      assume ?P
      then obtain post where "c # s = substr @ post" by (auto simp: prefix_def)
      then have "c # s = [] @ substr @ post" by simp
      then show ?L by blast
    next
      assume ?R
      then obtain pre post where "s = pre @ substr @ post" by blast
      then have "c # s = (c # pre) @ substr @ post" by simp
      then show ?L by blast
    qed
  qed
  with Cons.IH show ?case by simp
qed

text \<open>
  Claim C8, as the code has it. \<^verbatim>\<open>SupportsProcessing\<close> is true exactly when the
  request method is GET and the value that \<^verbatim>\<open>Header.Get("Upgrade")\<close> reads from the
  request, the first one stored under the name, does not contain the text websocket; when
  it is false, \<^verbatim>\<open>ServeHTTP\<close> runs the next handler on the real sink itself: no
  interceptor is built and nothing else is done. For a request that carries at most one
  Upgrade value this is the same as asking whether any of its Upgrade values contains the
  text.
\<close>

theorem support_gate:
  "SupportsProcessing req
     = (Method req = ''GET''
        \<and> \<not> (\<exists>pre post. Header_Get (reqHeader req) ''Upgrade'' = pre @ ''websocket'' @ post))
   \<and> (\<not> SupportsProcessing req \<longrightarrow>
        ServeHTTP bodyRewrite response req w = rw_run (rb_next bodyRewrite req) (response, w))
   \<and> (length (Header_index (reqHeader req) ''Upgrade'') \<le> 1 \<longrightarrow>
        SupportsProcessing req = (Method req = ''GET'' \<and> \<not> Upgrade_contains req ''websocket''))"
proof -
  have a: "SupportsProcessing req
     = (Method req = ''GET''
        \<and> \<not> (\<exists>pre post. Header_Get (reqHeader req) ''Upgrade'' = pre @ ''websocket'' @ post))"
    by (simp add: SupportsProcessing_def strings_Contains_iff)
  have b: "ServeHTTP bodyRewrite response req w = rw_run (rb_next bodyRewrite req) (response, w)"
    if "\<not> SupportsProcessing req"
    using that by (simp add: ServeHTTP_def)
  have c: "SupportsProcessing req = (Method req = ''GET'' \<and> \<not> Upgrade_contains req ''websocket'')"
    if "length (Header_index (reqHeader req) ''Upgrade'') \<le> 1"
  proof (cases "Header_index (reqHeader req) ''Upgrade''")
    case Nil
    then show ?thesis
      by (simp add: SupportsProcessing_def Upgrade_contains_def Header_Get_def)
  next
    case (Cons v vs)
    with that have "vs = []" by simp
    with Cons show ?thesis
      by (simp add: SupportsProcessing_def Upgrade_contains_def Header_Get_def)
  qed
  from a b c show ?thesis by blast
qed

theorem support_gate_witness:
  "\<not> SupportsProcessing ex_upgrade
   \<and> length (Header_index (reqHeader ex_upgrade) ''Upgrade'') = 1
   \<and> Upgrade_contains ex_upgrade ''websocket''
   \<and> ServeHTTP ex_middleware ex_sink ex_upgrade ex_world
       = (ex_sink\<lparr>rwCalls := [SinkWriteHeader 503, SinkWrite body_err]\<rparr>, ex_world)
   \<and> SupportsProcessing (ex_upgrade\<lparr>reqHeader := []\<rparr>)
   \<and> rwCalls (fst (ServeHTTP ex_middleware ex_sink (ex_upgrade\<lparr>reqHeader := []\<rparr>) ex_world)) = []"
proof -
  have l: "length (Header_index (reqHeader ex_upgrade) ''Upgrade'') = 1"
    by (simp add: ex_upgrade_def Header_index_def)
  have a: "\<not> SupportsProcessing ex_upgrade"
    by (simp add: SupportsProcessing_def ex_upgrade_def Header_Get_def Header_index_def)
  have b: "SupportsProcessing (ex_upgrade\<lparr>reqHeader := []\<rparr>)"
    by (simp add: SupportsProcessing_def ex_upgrade_def Header_Get_def Header_index_def)
  have c: "rw_run (rb_next ex_middleware ex_upgrade) (ex_sink, ex_world)
             = (ex_sink\<lparr>rwCalls := [SinkWriteHeader 503, SinkWrite body_err]\<rparr>, ex_world)"
    by (simp add: rw_run_def ex_middleware_def sink_defs ex_sink_def)
  have d: "rwCalls (fst (ServeHTTP ex_middleware ex_sink (ex_upgrade\<lparr>reqHeader := []\<rparr>) ex_world)) = []"
    using b by (simp add: ServeHTTP_def ex_middleware_def world_defs sink_defs cc_defs
                  ex_ranges_def ex_sink_def Let_def)
  have m: "Method ex_upgrade = ''GET''"
    by (simp add: ex_upgrade_def)
  note t = support_gate [of ex_upgrade ex_middleware ex_sink ex_world]
  from t a c have e: "ServeHTTP ex_middleware ex_sink ex_upgrade ex_world
       = (ex_sink\<lparr>rwCalls := [SinkWriteHeader 503, SinkWrite body_err]\<rparr>, ex_world)"
    by simp
  from t l a m have f: "Upgrade_contains ex_upgrade ''websocket''"
    by simp
  from a l f e b d show ?thesis by simp
qed

text \<open>
  The claim as it stands fails: a GET request that carries the Upgrade values h2c and
  websocket has websocket in its Upgrade header, yet \<^verbatim>\<open>SupportsProcessing\<close> reads
  h2c only and is true, and \<^verbatim>\<open>ServeHTTP\<close> wraps the sink: the 503 of the next handler
  is caught and the sink receives nothing.
\<close>

theorem support_gate_counterexample:
  "Method ex_two_upgrades = ''GET''
   \<and> Upgrade_contains ex_two_upgrades ''websocket''
   \<and> SupportsProcessing ex_two_upgrades
   \<and> SupportsProcessing ex_two_upgrades
       \<noteq> (Method ex_two_upgrades = ''GET'' \<and> \<not> Upgrade_contains ex_two_upgrades ''websocket'')
   \<and> rwCalls (fst (ServeHTTP ex_middleware ex_sink ex_two_upgrades ex_world)) = []"
proof -
  have a: "Method ex_two_upgrades = ''GET''"
    by (simp add: ex_two_upgrades_def)
  have b: "Upgrade_contains ex_two_upgrades ''websocket''"
    by (simp add: Upgrade_contains_def ex_two_upgrades_def Header_index_def)
  have c: "SupportsProcessing ex_two_upgrades"
    by (simp add: SupportsProcessing_def ex_two_upgrades_def Header_Get_def Header_index_def)
  have d: "rwCalls (fst (ServeHTTP ex_middleware ex_sink ex_two_upgrades ex_world)) = []"
    using c by (simp add: ServeHTTP_def ex_middleware_def world_defs sink_defs cc_defs
                  ex_ranges_def ex_sink_def Let_def)
  from a b c d show ?thesis by simp
qed

section \<open>Codec failures\<close>

lemma CodeCatcher_WriteHeader_logged:
  "logged (snd (CodeCatcher_WriteHeader c st)) = logged (snd st)"
proof (cases "pub_headersSent (fst st) \<or> pub_caughtFilteredCode (fst st)")
  case True
  then show ?thesis by (simp add: CodeCatcher_WriteHeader_done)
next
  case False
  then show ?thesis
    by (cases "inCodeRanges c (pub_httpCodeRanges (fst st))")
       (simp_all add: CodeCatcher_WriteHeader_caught CodeCatcher_WriteHeader_sent_world
          CopyHeaders_logged CodeCatcher_Header_def make_Header_def split: option.splits)
qed

lemma CodeCatcher_WriteHeader_rwWriteResult:
  "rwWriteResult (pub_ResponseWriter (fst (CodeCatcher_WriteHeader c st)))
     = rwWriteResult (pub_ResponseWriter (fst st))"
proof (cases "pub_headersSent (fst st) \<or> pub_caughtFilteredCode (fst st)")
  case True
  then show ?thesis by (simp add: CodeCatcher_WriteHeader_done)
next
  case False
  then show ?thesis
    by (cases "inCodeRanges c (pub_httpCodeRanges (fst st))")
       (simp_all add: CodeCatcher_WriteHeader_caught CodeCatcher_WriteHeader_sent rw_WriteHeader_def)
qed

lemma SetContent_world:
  "snd (SetContent cd data st) =
     (case snd (rwWriteResult
                  (pub_ResponseWriter
                     (fst (if \<not> pub_wroteHeader (fst st) then CodeCatcher_WriteHeader StatusOK st else st)))
                  (fst (Encode cd data (getContentEncoding st)))) of
        None \<Rightarrow> snd (if \<not> pub_wroteHeader (fst st) then CodeCatcher_WriteHeader StatusOK st else st)
      | Some err \<Rightarrow>
          log_Print
            (LogErrorHeaders
               (deref (snd (if \<not> pub_wroteHeader (fst st) then CodeCatcher_WriteHeader StatusOK st else st))
                  (rwHeader (pub_ResponseWriter
                     (fst (if \<not> pub_wroteHeader (fst st) then CodeCatcher_WriteHeader StatusOK st else st))))))
            (log_Print (LogUnableToWrite err)
               (snd (if \<not> pub_wroteHeader (fst st) then CodeCatcher_WriteHeader StatusOK st else st))))"
  by (simp add: SetContent_def Let_def rw_Write_def CodeCatcher_LogHeaders_def deref_def log_Print_def
           split: prod.splits option.splits)

lemma SetContent_logged:
  "snd (rwWriteResult (pub_ResponseWriter (fst st)) (fst (Encode cd data (getContentEncoding st)))) = None
   \<Longrightarrow> logged (snd (SetContent cd data st)) = logged (snd st)"
  by (simp add: SetContent_world CodeCatcher_WriteHeader_logged CodeCatcher_WriteHeader_rwWriteResult)

text \<open>
  Claim C9, as the code has it. \<^verbatim>\<open>GetContent\<close> hands the bytes and the error of
  \<^verbatim>\<open>Decode\<close> to its caller. \<^verbatim>\<open>SetContent\<close> has no result and takes no notice of the
  error of \<^verbatim>\<open>Encode\<close>: after the status call it makes when \<^verbatim>\<open>wroteHeader\<close> is
  unset, it writes the bytes \<^verbatim>\<open>Encode\<close> returned to the real sink, two codecs whose
  encoders return the same bytes give the same outcome whatever their errors, and the
  log grows only when the sink's \<^verbatim>\<open>Write\<close> fails.
\<close>

theorem codec_results_in_content_calls:
  "fst (GetContent cd st) = fst (Decode cd (pub_buffer (fst st)) (getContentEncoding st))
   \<and> rwCalls (pub_ResponseWriter (fst (SetContent cd data st)))
       = rwCalls (pub_ResponseWriter
           (fst (if \<not> pub_wroteHeader (fst st) then CodeCatcher_WriteHeader StatusOK st else st)))
         @ [SinkWrite (fst (Encode cd data (getContentEncoding st)))]
   \<and> (fst (Encode cd data (getContentEncoding st)) = fst (Encode cd' data (getContentEncoding st))
        \<longrightarrow> SetContent cd data st = SetContent cd' data st)
   \<and> (snd (rwWriteResult (pub_ResponseWriter (fst st)) (fst (Encode cd data (getContentEncoding st))))
          = None
        \<longrightarrow> logged (snd (SetContent cd data st)) = logged (snd st))"
proof -
  have g: "fst (GetContent cd st) = fst (Decode cd (pub_buffer (fst st)) (getContentEncoding st))"
    by (simp add: GetContent_def GetBuffer_def Let_def split: prod.splits)
  have s: "rwCalls (pub_ResponseWriter (fst (SetContent cd data st)))
       = rwCalls (pub_ResponseWriter
           (fst (if \<not> pub_wroteHeader (fst st) then CodeCatcher_WriteHeader StatusOK st else st)))
         @ [SinkWrite (fst (Encode cd data (getContentEncoding st)))]"
    by (simp add: SetContent_catcher rw_Write_def)
  have e: "SetContent cd data st = SetContent cd' data st"
    if "fst (Encode cd data (getContentEncoding st)) = fst (Encode cd' data (getContentEncoding st))"
    using that by (simp add: SetContent_def)
  from g s e SetContent_logged [of st cd data] show ?thesis by blast
qed

theorem codec_results_in_content_calls_witness:
  "snd (fst (GetContent failing_codec (CodeCatcher_start ex_sink ex_ranges ex_world))) = Some ''bad input''
   \<and> snd (Encode failing_codec body_hi []) = Some ''encoder failed''
   \<and> fst (Encode failing_codec body_hi []) = fst (Encode (failing_codec\<lparr>Encode := (\<lambda>d e. ([255], None))\<rparr>) body_hi [])
   \<and> SetContent failing_codec body_hi (CodeCatcher_start ex_sink ex_ranges ex_world)
       = SetContent (failing_codec\<lparr>Encode := (\<lambda>d e. ([255], None))\<rparr>) body_hi
           (CodeCatcher_start ex_sink ex_ranges ex_world)
   \<and> snd (rwWriteResult ex_sink [255]) = None
   \<and> logged (snd (SetContent failing_codec body_hi (CodeCatcher_start ex_sink ex_ranges ex_world))) = []"
proof -
  let ?st = "CodeCatcher_start ex_sink ex_ranges ex_world"
  have enc: "getContentEncoding ?st = []"
    by (simp add: world_defs pub_defs ex_defs Let_def)
  have st: "pub_buffer (fst ?st) = []" "pub_ResponseWriter (fst ?st) = ex_sink"
           "logged (snd ?st) = []"
    by (simp_all add: CodeCatcher_start_simps ex_world_def)
  have ok: "snd (rwWriteResult ex_sink [255]) = None"
    by (simp add: ex_sink_def)
  note t = codec_results_in_content_calls
             [of failing_codec ?st body_hi "failing_codec\<lparr>Encode := (\<lambda>d e. ([255], None))\<rparr>"]
  from t have a: "snd (fst (GetContent failing_codec ?st)) = Some ''bad input''"
    by (simp add: enc st failing_codec_def)
  from t have b: "SetContent failing_codec body_hi ?st
                    = SetContent (failing_codec\<lparr>Encode := (\<lambda>d e. ([255], None))\<rparr>) body_hi ?st"
    by (simp add: enc failing_codec_def)
  have p: "snd (rwWriteResult (pub_ResponseWriter (fst ?st))
                  (fst (Encode failing_codec body_hi (getContentEncoding ?st)))) = None"
    by (simp add: enc st ok failing_codec_def)
  from t [THEN conjunct2, THEN conjunct2, THEN conjunct2] p
  have "logged (snd (SetContent failing_codec body_hi ?st)) = logged (snd ?st)"
    by (rule mp)
  then have c: "logged (snd (SetContent failing_codec body_hi ?st)) = []"
    by (simp only: st)
  from a b c ok show ?thesis
    by (simp add: failing_codec_def)
qed

text \<open>
  The claim as it stands fails: with a buffered upstream body, an encoder that fails and
  a sink that accepts every write, \<^verbatim>\<open>SetContent\<close> sends the status 200 and the
  encoder's one leftover byte to the sink, not the buffered bytes, and logs nothing.
\<close>

theorem SetContent_encode_error_counterexample:
  "snd (Encode failing_codec body_hi (getContentEncoding ex_buffered)) = Some ''encoder failed''
   \<and> pub_buffer (fst ex_buffered) = body_err
   \<and> rwCalls (pub_ResponseWriter (fst (SetContent failing_codec body_hi ex_buffered)))
       = [SinkWriteHeader 200, SinkWrite [255]]
   \<and> sink_bytes (rwCalls (pub_ResponseWriter (fst (SetContent failing_codec body_hi ex_buffered))))
       \<noteq> body_err
   \<and> logged (snd (SetContent failing_codec body_hi ex_buffered)) = []"
  by (simp add: ex_buffered_def world_defs sink_defs pub_defs ex_defs StatusOK_def Let_def)

section \<open>The header buffer stays private\<close>

lemma cc_WriteHeader_refs:
  assumes "headerMap (fst st) = Some r"
  shows "headerMap (fst (cc_WriteHeader c st)) = Some r"
    and "rwHeader (responseWriter (fst (cc_WriteHeader c st))) = rwHeader (responseWriter (fst st))"
proof -
  have "headerMap (fst (cc_WriteHeader c st)) = Some r
        \<and> rwHeader (responseWriter (fst (cc_WriteHeader c st))) = rwHeader (responseWriter (fst st))"
  proof (cases "headersSent (fst st) \<or> caughtFilteredCode (fst st)")
    case True
    with assms show ?thesis by (simp add: cc_WriteHeader_done)
  next
    case False
    with assms show ?thesis
      by (cases "inCodeRanges c (httpCodeRanges (fst st))")
         (simp_all add: cc_WriteHeader_caught cc_WriteHeader_sent cc_Header_Some rw_WriteHeader_def)
  qed
  then show "headerMap (fst (cc_WriteHeader c st)) = Some r"
    and "rwHeader (responseWriter (fst (cc_WriteHeader c st))) = rwHeader (responseWriter (fst st))"
    by simp_all
qed

lemma cc_apply_refs:
  assumes "headerMap (fst st) = Some r"
  shows "headerMap (fst (cc_apply x st)) = Some r
       \<and> rwHeader (responseWriter (fst (cc_apply x st))) = rwHeader (responseWriter (fst st))"
proof (cases x)
  case (OpHeader f)
  with assms show ?thesis
    by (simp add: cc_apply_OpHeader_catcher cc_Header_Some del: cc_apply.simps)
next
  case (OpWriteHeader c)
  with assms show ?thesis by (simp add: cc_WriteHeader_refs)
next
  case (OpWrite buf)
  with assms show ?thesis by (simp add: cc_Write_state cc_WriteHeader_refs rw_Write_def)
next
  case OpFlush
  with assms show ?thesis by (simp add: cc_Flush_state cc_WriteHeader_refs rw_Flush_def)
next
  case OpHijack
  with assms show ?thesis by (simp add: cc_Hijack_def rw_Hijack_def)
qed

lemma cc_run_refs:
  "headerMap (fst st) = Some r \<Longrightarrow>
   headerMap (fst (cc_run ops st)) = Some r
   \<and> rwHeader (responseWriter (fst (cc_run ops st))) = rwHeader (responseWriter (fst st))"
  unfolding cc_run_def
proof (induction ops arbitrary: st)
  case Nil
  then show ?case by simp
next
  case (Cons x ops)
  from cc_apply_refs [OF Cons.prems, of x]
  have a: "headerMap (fst (cc_apply x st)) = Some r"
    and b: "rwHeader (responseWriter (fst (cc_apply x st))) = rwHeader (responseWriter (fst st))"
    by simp_all
  from Cons.IH [OF a] b show ?case by simp
qed

text \<open>A change made through \<^verbatim>\<open>Header()\<close> touches the map under the buffer's reference only.\<close>

lemma cc_apply_OpHeader_world:
  "headerMap (fst st) = Some r \<Longrightarrow>
   cc_apply (OpHeader f) st = (fst st, assign r (f (deref (snd st) r)) (snd st))"
  by (simp add: cc_Header_Some split: prod.splits)

text \<open>After the commit no call changes any map other than the buffer.\<close>

lemma cc_apply_committed_world:
  assumes "headerMap (fst st) = Some r" "headersSent (fst st)" "d \<noteq> r"
  shows "deref (snd (cc_apply x st)) d = deref (snd st) d"
proof (cases x)
  case (OpHeader f)
  with assms show ?thesis by (simp add: cc_apply_OpHeader_world deref_assign del: cc_apply.simps)
next
  case (OpWriteHeader c)
  with assms show ?thesis by (simp add: cc_WriteHeader_done)
next
  case (OpWrite buf)
  with assms show ?thesis by (simp add: cc_Write_state cc_WriteHeader_done)
next
  case OpFlush
  with assms show ?thesis by (simp add: cc_Flush_state cc_WriteHeader_done)
next
  case OpHijack
  with assms show ?thesis by (simp add: cc_Hijack_def)
qed

lemma cc_Header_unchanged:
  "headerMap (fst st) = Some r \<Longrightarrow> snd (cc_Header st) = st"
  by (simp add: cc_Header_Some)


lemma deref_log_Print: "deref (log_Print e w) r = deref w r"
  by (simp add: deref_def log_Print_def)

lemma CodeCatcher_WriteHeader_refs:
  assumes "pub_headerMap (fst st) = Some r"
  shows "pub_headerMap (fst (CodeCatcher_WriteHeader c st)) = Some r"
    and "rwHeader (pub_ResponseWriter (fst (CodeCatcher_WriteHeader c st)))
           = rwHeader (pub_ResponseWriter (fst st))"
proof -
  have "pub_headerMap (fst (CodeCatcher_WriteHeader c st)) = Some r
        \<and> rwHeader (pub_ResponseWriter (fst (CodeCatcher_WriteHeader c st)))
            = rwHeader (pub_ResponseWriter (fst st))"
  proof (cases "pub_headersSent (fst st) \<or> pub_caughtFilteredCode (fst st)")
    case True
    with assms show ?thesis by (simp add: CodeCatcher_WriteHeader_done)
  next
    case False
    with assms show ?thesis
      by (cases "inCodeRanges c (pub_httpCodeRanges (fst st))")
         (simp_all add: CodeCatcher_WriteHeader_caught CodeCatcher_WriteHeader_sent
            CodeCatcher_Header_Some rw_WriteHeader_def)
  qed
  then show "pub_headerMap (fst (CodeCatcher_WriteHeader c st)) = Some r"
    and "rwHeader (pub_ResponseWriter (fst (CodeCatcher_WriteHeader c st)))
           = rwHeader (pub_ResponseWriter (fst st))"
    by simp_all
qed

lemma CodeCatcher_apply_refs:
  assumes "pub_headerMap (fst st) = Some r"
  shows "pub_headerMap (fst (CodeCatcher_apply cd x st)) = Some r
       \<and> rwHeader (pub_ResponseWriter (fst (CodeCatcher_apply cd x st)))
           = rwHeader (pub_ResponseWriter (fst st))"
proof (cases x)
  case (PubHeader f)
  with assms show ?thesis
    by (simp add: CodeCatcher_apply_PubHeader_catcher CodeCatcher_Header_Some
             del: CodeCatcher_apply.simps)
next
  case (PubWriteHeader c)
  with assms show ?thesis by (simp add: CodeCatcher_WriteHeader_refs)
next
  case (PubWrite buf)
  with assms show ?thesis
    by (simp add: CodeCatcher_Write_state CodeCatcher_WriteHeader_refs rw_Write_def)
next
  case PubFlush
  with assms show ?thesis
    by (simp add: CodeCatcher_Flush_state CodeCatcher_WriteHeader_refs rw_Flush_def)
next
  case PubHijack
  with assms show ?thesis by (simp add: CodeCatcher_Hijack_def rw_Hijack_def)
next
  case PubGetContent
  with assms show ?thesis by (simp add: GetContent_def Let_def split: prod.splits)
next
  case (PubSetContent data)
  with assms show ?thesis
    by (simp add: SetContent_catcher CodeCatcher_WriteHeader_refs rw_Write_def)
next
  case (PubSetLastModified v)
  with assms show ?thesis by (simp add: SetLastModified_def)
next
  case (PubBuffer g)
  with assms show ?thesis by simp
qed

lemma CodeCatcher_run_refs:
  "pub_headerMap (fst st) = Some r \<Longrightarrow>
   pub_headerMap (fst (CodeCatcher_run cd ops st)) = Some r
   \<and> rwHeader (pub_ResponseWriter (fst (CodeCatcher_run cd ops st)))
       = rwHeader (pub_ResponseWriter (fst st))"
  unfolding CodeCatcher_run_def
proof (induction ops arbitrary: st)
  case Nil
  then show ?case by simp
next
  case (Cons x ops)
  from CodeCatcher_apply_refs [OF Cons.prems, of cd x]
  have a: "pub_headerMap (fst (CodeCatcher_apply cd x st)) = Some r"
    and b: "rwHeader (pub_ResponseWriter (fst (CodeCatcher_apply cd x st)))
              = rwHeader (pub_ResponseWriter (fst st))"
    by simp_all
  from Cons.IH [OF a] b show ?case by simp
qed

lemma CodeCatcher_apply_PubHeader_world:
  "pub_headerMap (fst st) = Some r \<Longrightarrow>
   CodeCatcher_apply cd (PubHeader f) st = (fst st, assign r (f (deref (snd st) r)) (snd st))"
  by (simp add: CodeCatcher_Header_Some split: prod.splits)

lemma CodeCatcher_apply_committed_world:
  assumes "pub_headerMap (fst st) = Some r" "pub_headersSent (fst st)" "d \<noteq> r"
  shows "deref (snd (CodeCatcher_apply cd x st)) d = deref (snd st) d"
proof (cases x)
  case (PubHeader f)
  with assms show ?thesis
    by (simp add: CodeCatcher_apply_PubHeader_world deref_assign del: CodeCatcher_apply.simps)
next
  case (PubWriteHeader c)
  with assms show ?thesis by (simp add: CodeCatcher_WriteHeader_done)
next
  case (PubWrite buf)
  with assms show ?thesis by (simp add: CodeCatcher_Write_state CodeCatcher_WriteHeader_done)
next
  case PubFlush
  with assms show ?thesis by (simp add: CodeCatcher_Flush_state CodeCatcher_WriteHeader_done)
next
  case PubHijack
  with assms show ?thesis by (simp add: CodeCatcher_Hijack_def)
next
  case PubGetContent
  with assms show ?thesis by (simp add: GetContent_def Let_def split: prod.splits)
next
  case (PubSetContent data)
  with assms show ?thesis
    by (simp add: SetContent_world CodeCatcher_WriteHeader_done deref_log_Print split: option.splits)
next
  case (PubSetLastModified v)
  with assms show ?thesis by simp
next
  case (PubBuffer g)
  with assms show ?thesis by simp
qed

text \<open>
  Claim C10. At every point an interceptor fresh from its constructor can reach, also
  after the commit, \<^verbatim>\<open>Header()\<close> returns the map made by the constructor and changes
  nothing; that map is not the one the real sink's \<^verbatim>\<open>Header()\<close> returns. A change made
  to it leaves the sink and the sink's header map as they were, and once the status is
  committed no call on the interceptor changes the sink's header map any more: the buffer
  was copied at the commit and is not copied again. This holds for the internal and for
  the exported interceptor. The sink's header map exists before the constructor runs.
\<close>

theorem Header_returns_private_buffer:
  assumes "rwHeader rw < nextRef w"
    and "st = cc_run ops (cc_start rw R w)"
    and "pst = CodeCatcher_run cd pops (CodeCatcher_start rw R w)"
  shows "cc_Header st = (nextRef w, st)
   \<and> fst (cc_Header st) \<noteq> rwHeader (responseWriter (fst st))
   \<and> responseWriter (fst (cc_apply (OpHeader f) st)) = responseWriter (fst st)
   \<and> deref (snd (cc_apply (OpHeader f) st)) (rwHeader (responseWriter (fst st)))
       = deref (snd st) (rwHeader (responseWriter (fst st)))
   \<and> (headersSent (fst st) \<longrightarrow>
        deref (snd (cc_apply x st)) (rwHeader (responseWriter (fst st)))
          = deref (snd st) (rwHeader (responseWriter (fst st))))
   \<and> CodeCatcher_Header pst = (nextRef w, pst)
   \<and> fst (CodeCatcher_Header pst) \<noteq> rwHeader (pub_ResponseWriter (fst pst))
   \<and> pub_ResponseWriter (fst (CodeCatcher_apply cd (PubHeader f) pst)) = pub_ResponseWriter (fst pst)
   \<and> deref (snd (CodeCatcher_apply cd (PubHeader f) pst)) (rwHeader (pub_ResponseWriter (fst pst)))
       = deref (snd pst) (rwHeader (pub_ResponseWriter (fst pst)))
   \<and> (pub_headersSent (fst pst) \<longrightarrow>
        deref (snd (CodeCatcher_apply cd y pst)) (rwHeader (pub_ResponseWriter (fst pst)))
          = deref (snd pst) (rwHeader (pub_ResponseWriter (fst pst))))"
proof -
  from cc_run_refs [of "cc_start rw R w" "nextRef w" ops] assms(2)
  have hm: "headerMap (fst st) = Some (nextRef w)"
    and rh: "rwHeader (responseWriter (fst st)) = rwHeader rw"
    by (simp_all add: cc_start_simps)
  from assms(1) rh have ne: "rwHeader (responseWriter (fst st)) \<noteq> nextRef w"
    by simp
  have i1: "cc_Header st = (nextRef w, st)"
    using hm by (rule cc_Header_Some)
  have i2: "fst (cc_Header st) \<noteq> rwHeader (responseWriter (fst st))"
    using ne by (simp add: i1)
  have i3: "responseWriter (fst (cc_apply (OpHeader f) st)) = responseWriter (fst st)"
    by (simp add: cc_apply_OpHeader_world [OF hm] del: cc_apply.simps)
  have i4: "deref (snd (cc_apply (OpHeader f) st)) (rwHeader (responseWriter (fst st)))
              = deref (snd st) (rwHeader (responseWriter (fst st)))"
    using ne by (simp add: cc_apply_OpHeader_world [OF hm] deref_assign del: cc_apply.simps)
  have i5: "deref (snd (cc_apply x st)) (rwHeader (responseWriter (fst st)))
              = deref (snd st) (rwHeader (responseWriter (fst st)))"
    if "headersSent (fst st)"
    using hm that ne by (rule cc_apply_committed_world)
  from CodeCatcher_run_refs [of "CodeCatcher_start rw R w" "nextRef w" cd pops] assms(3)
  have phm: "pub_headerMap (fst pst) = Some (nextRef w)"
    and prh: "rwHeader (pub_ResponseWriter (fst pst)) = rwHeader rw"
    by (simp_all add: CodeCatcher_start_simps)
  from assms(1) prh have pne: "rwHeader (pub_ResponseWriter (fst pst)) \<noteq> nextRef w"
    by simp
  have p1: "CodeCatcher_Header pst = (nextRef w, pst)"
    using phm by (rule CodeCatcher_Header_Some)
  have p2: "fst (CodeCatcher_Header pst) \<noteq> rwHeader (pub_ResponseWriter (fst pst))"
    using pne by (simp add: p1)
  have p3: "pub_ResponseWriter (fst (CodeCatcher_apply cd (PubHeader f) pst))
              = pub_ResponseWriter (fst pst)"
    by (simp add: CodeCatcher_apply_PubHeader_world [OF phm] del: CodeCatcher_apply.simps)
  have p4: "deref (snd (CodeCatcher_apply cd (PubHeader f) pst)) (rwHeader (pub_ResponseWriter (fst pst)))
              = deref (snd pst) (rwHeader (pub_ResponseWriter (fst pst)))"
    using pne
    by (simp add: CodeCatcher_apply_PubHeader_world [OF phm] deref_assign
             del: CodeCatcher_apply.simps)
  have p5: "deref (snd (CodeCatcher_apply cd y pst)) (rwHeader (pub_ResponseWriter (fst pst)))
              = deref (snd pst) (rwHeader (pub_ResponseWriter (fst pst)))"
    if "pub_headersSent (fst pst)"
    using phm that pne by (rule CodeCatcher_apply_committed_world)
  from i1 i2 i3 i4 i5 p1 p2 p3 p4 p5 show ?thesis by blast
qed


theorem Header_returns_private_buffer_witness:
  "rwHeader ex_sink < nextRef ex_world
   \<and> headersSent (fst ex_committed)
   \<and> rwHeader (responseWriter (fst ex_committed)) = 0
   \<and> fst (cc_Header ex_committed) = Suc 0
   \<and> deref (snd (cc_apply (OpHeader ex_late) ex_committed)) 0
       = [(''Server'', [''up'']), (''X-A'', [''1''])]
   \<and> pub_headersSent (fst ex_pub_committed)
   \<and> rwHeader (pub_ResponseWriter (fst ex_pub_committed)) = 0
   \<and> fst (CodeCatcher_Header ex_pub_committed) = Suc 0
   \<and> deref (snd (CodeCatcher_apply failing_codec (PubHeader ex_late) ex_pub_committed)) 0
       = [(''Server'', [''up'']), (''X-A'', [''1''])]"
proof -
  have h: "rwHeader ex_sink < nextRef ex_world"
    by (simp add: ex_sink_def ex_world_def)
  have n: "nextRef ex_world = Suc 0"
    by (simp add: ex_world_def)
  have a: "headersSent (fst ex_committed)" "rwHeader (responseWriter (fst ex_committed)) = 0"
          "deref (snd ex_committed) 0 = [(''Server'', [''up'']), (''X-A'', [''1''])]"
    by (simp_all add: ex_committed_def world_defs sink_defs cc_defs ex_defs Let_def AList.update.simps)
  have b: "pub_headersSent (fst ex_pub_committed)"
          "rwHeader (pub_ResponseWriter (fst ex_pub_committed)) = 0"
          "deref (snd ex_pub_committed) 0 = [(''Server'', [''up'']), (''X-A'', [''1''])]"
    by (simp_all add: ex_pub_committed_def world_defs sink_defs pub_defs ex_defs StatusOK_def Let_def
          AList.update.simps)
  note t = Header_returns_private_buffer
             [OF h ex_committed_def ex_pub_committed_def, of ex_late "OpHeader ex_late" "PubHeader ex_late"]
  from t have c: "cc_Header ex_committed = (nextRef ex_world, ex_committed)"
    and d: "CodeCatcher_Header ex_pub_committed = (nextRef ex_world, ex_pub_committed)"
    by blast+
  from t a have e: "deref (snd (cc_apply (OpHeader ex_late) ex_committed)) 0
                      = [(''Server'', [''up'']), (''X-A'', [''1''])]"
    by (simp del: cc_apply.simps)
  from t b have f: "deref (snd (CodeCatcher_apply failing_codec (PubHeader ex_late) ex_pub_committed)) 0
                      = [(''Server'', [''up'']), (''X-A'', [''1''])]"
    by (simp del: CodeCatcher_apply.simps)
  from h a b e f show ?thesis
    by (simp add: c d n del: cc_apply.simps CodeCatcher_apply.simps)
qed

section \<open>Writes after a filtered status\<close>

text \<open>
  The internal interceptor in the filtered state: a body write reports the length of the
  buffer and no error and changes nothing; of the three calls that set the status, only
  the flush reaches the sink, as a flush, and the interceptor stays filtered.
\<close>

lemma cc_Write_filtered:
  "caughtFilteredCode (fst st) \<Longrightarrow> cc_Write buf st = ((int (length buf), None), st)"
  by (cases st) (simp add: cc_Write_def cc_WriteHeader_done)

lemma cc_filtered_frozen:
  assumes "caughtFilteredCode (fst st)" "sets_status x"
  shows "caughtFilteredCode (fst (cc_apply x st))
       \<and> snd (cc_apply x st) = snd st
       \<and> sink_bytes (rwCalls (responseWriter (fst (cc_apply x st))))
           = sink_bytes (rwCalls (responseWriter (fst st)))
       \<and> sink_statuses (rwCalls (responseWriter (fst (cc_apply x st))))
           = sink_statuses (rwCalls (responseWriter (fst st)))"
proof (cases x)
  case (OpWriteHeader c)
  with assms show ?thesis by (simp add: cc_WriteHeader_done)
next
  case (OpWrite buf)
  with assms show ?thesis by (simp add: cc_Write_filtered)
next
  case OpFlush
  with assms show ?thesis
    by (simp add: cc_Flush_state cc_WriteHeader_done rw_Flush_def sink_bytes_append
          sink_statuses_append)
qed (use assms in simp_all)

text \<open>
  Claim C1, on the exported interceptor. With the range 500 to 599, after the handler has
  set status 503 the interceptor is filtered; the body write that follows is handed to the
  real sink, which receives its four bytes, and the result of the call is the sink's own.
\<close>

theorem exported_Write_reaches_sink_when_filtered:
  "IsFilteredCode (fst (CodeCatcher_WriteHeader 503 (CodeCatcher_start ex_sink ex_ranges ex_world)))
   \<and> sink_bytes (rwCalls (pub_ResponseWriter (fst (snd (CodeCatcher_Write body_err
        (CodeCatcher_WriteHeader 503 (CodeCatcher_start ex_sink ex_ranges ex_world)))))))
       = body_err
   \<and> fst (CodeCatcher_Write body_err
        (CodeCatcher_WriteHeader 503 (CodeCatcher_start ex_sink ex_ranges ex_world)))
       = rwWriteResult ex_sink body_err"
  by (simp add: world_defs sink_defs pub_defs ex_defs StatusOK_def Let_def)

text \<open>
  Claim C2, on the exported interceptor. After status 503 the interceptor is filtered and
  stays so, yet the calls that follow go on to the real sink: it receives both body writes
  and the flush, and no status.
\<close>

theorem exported_sink_written_after_filter:
  "pub_caughtFilteredCode
     (fst (CodeCatcher_run failing_codec
             [PubWriteHeader 503, PubWrite body_hi, PubFlush, PubWriteHeader 200, PubWrite body_err]
             (CodeCatcher_start ex_sink ex_ranges ex_world)))
   \<and> \<not> pub_headersSent
     (fst (CodeCatcher_run failing_codec
             [PubWriteHeader 503, PubWrite body_hi, PubFlush, PubWriteHeader 200, PubWrite body_err]
             (CodeCatcher_start ex_sink ex_ranges ex_world)))
   \<and> rwCalls (pub_ResponseWriter
     (fst (CodeCatcher_run failing_codec
             [PubWriteHeader 503, PubWrite body_hi, PubFlush, PubWriteHeader 200, PubWrite body_err]
             (CodeCatcher_start ex_sink ex_ranges ex_world))))
       = [SinkWrite body_hi, SinkFlush, SinkWrite body_err]"
  by (simp add: world_defs sink_defs pub_defs ex_defs StatusOK_def Let_def)

end
